theory Spec2Isabelle
  imports Complex_Main "HOL-Library.Word"
begin

unbundle bit_operations_syntax

section \<open>The RSP server of GdbServerImpl.cpp\<close>

text \<open>
  A shallow embedding of \<^verbatim>\<open>src/server/GdbServerImpl.cpp\<close>. The server object is a
  record; every member function is a function from the server state to the new server
  state. The collaborators whose code lives in other files of the repository are
  handled as follows.
  \<^item> The simulated CPU (\<^verbatim>\<open>ITarget\<close>) is a record of functions over an arbitrary
    target state \<open>'t\<close>; every theorem holds for every target.
  \<^item> The helper functions of \<^verbatim>\<open>Utils\<close>, \<^verbatim>\<open>RspPacket\<close> and
    \<^verbatim>\<open>SyscallReplyPacket\<close> whose result the specification does not fix are the
    fields of a record \<open>Helpers\<close>; every theorem holds for every choice of them.
  \<^item> The connection is a queue of inbound payloads, the list of payloads sent so far,
    and the answers of the successive \<^verbatim>\<open>haveBreak\<close> polls.
  \<^item> \<^verbatim>\<open>system_clock::now ()\<close> reads the next value of a sequence of clock readings.
  A call of \<^verbatim>\<open>exit (EXIT_FAILURE)\<close> and a step whose effect C++ leaves undefined are
  error values; a loop that need not end is a \<^theory_text>\<open>partial_function\<close> whose value
  \<open>None\<close> stands for not returning. Warnings written to \<^verbatim>\<open>cerr\<close> are not modelled.
\<close>

subsection \<open>Enumerations\<close>

datatype TargetSignal =
  TargetSignal_NONE | TargetSignal_INT | TargetSignal_TRAP | TargetSignal_XCPU | TargetSignal_UNKNOWN

text \<open>
  Modelled from the spec: the numeric values of \<^verbatim>\<open>TargetSignal\<close> (declared in
  GdbServerImpl.h) are NONE=0, INT=2, TRAP=5, XCPU=24, UNKNOWN=143.
\<close>

fun TargetSignal_int :: "TargetSignal \<Rightarrow> nat" where
  "TargetSignal_int TargetSignal_NONE = 0"
| "TargetSignal_int TargetSignal_INT = 2"
| "TargetSignal_int TargetSignal_TRAP = 5"
| "TargetSignal_int TargetSignal_XCPU = 24"
| "TargetSignal_int TargetSignal_UNKNOWN = 143"

datatype ResumeType = STEP | CONTINUE | STOP

datatype ResumeRes =
  ResumeRes_NONE | SUCCESS | FAILURE | STEPPED | INTERRUPTED | TIMEOUT | SYSCALL

datatype ResetType = COLD | WARM

datatype MpType = BP_MEMORY | BP_HARDWARE | WP_WRITE | WP_READ | WP_ACCESS

datatype SyscallContinuationType =
  SYSCALL_NONE_PENDING | SYSCALL_THEN_FINISH_STEPPING | SYSCALL_THEN_FINISH_CONTINUE

datatype KillBehaviour = EXIT_ON_KILL | RESET_ON_KILL

datatype error = EXIT_FAILURE | UNDEFINED

subsection \<open>The target interface\<close>

text \<open>
  The member functions of \<^verbatim>\<open>ITarget\<close> that the server calls. \<open>resume\<close> takes the
  optional time slice of the two-argument overload. \<open>readRegister\<close> gives the byte size
  it returns and the value it stores; \<open>target_read\<close> (\<^verbatim>\<open>read\<close>) gives the bytes it delivers (their number
  is the value the C++ function returns); \<open>command\<close> gives the acceptance flag and the
  text written to the stream.
\<close>

record 't ITarget =
  resume :: "ResumeType \<Rightarrow> real option \<Rightarrow> 't \<Rightarrow> ResumeRes \<times> 't"
  reset :: "ResetType \<Rightarrow> 't \<Rightarrow> ResumeRes \<times> 't"
  getCycleCount :: "'t \<Rightarrow> 64 word"
  getInstrCount :: "'t \<Rightarrow> 64 word"
  readRegister :: "int \<Rightarrow> 't \<Rightarrow> int \<times> 32 word"
  writeRegister :: "int \<Rightarrow> 32 word \<Rightarrow> 't \<Rightarrow> int \<times> 't"
  target_read :: "32 word \<Rightarrow> nat \<Rightarrow> 't \<Rightarrow> 8 word list"
  target_write :: "32 word \<Rightarrow> 8 word list \<Rightarrow> 't \<Rightarrow> nat \<times> 't"
  command :: "string \<Rightarrow> 't \<Rightarrow> bool \<times> string \<times> 't"

text \<open>The journal of the calls the server has made on the target, oldest first.\<close>

datatype tcall =
  Resume ResumeType "real option"
| Reset ResetType
| GetCycleCount
| GetInstrCount
| ReadRegister int
| WriteRegister int "32 word"
| Read "32 word" nat
| Write "32 word" "8 word list"
| Command string

subsection \<open>Helpers defined in other files\<close>

record SyscallReplyPacket =
  valid :: bool
  retcode :: "32 word"
  hasCtrlC :: bool

text \<open>
  \<open>val2Hex v n le\<close> is the text \<^verbatim>\<open>Utils::val2Hex\<close> stores at its destination,
  \<open>hex2Val buf n le\<close> the value \<^verbatim>\<open>Utils::hex2Val\<close> reads from the characters at
  its source, \<open>hex2Ascii src\<close> the C string \<^verbatim>\<open>Utils::hex2Ascii\<close> stores,
  \<open>rspUnescape bytes\<close> the bytes \<^verbatim>\<open>Utils::rspUnescape\<close> leaves in place (their
  number is its result), \<open>parse\<close> the state of a \<^verbatim>\<open>SyscallReplyPacket\<close> after
  \<^verbatim>\<open>parse\<close>, and \<open>packRcmdStr\<close>, \<open>packHexstr\<close> the payload the packet holds after
  the call. \<open>put_time\<close> is the text \<^verbatim>\<open>strftime\<close> gives for a clock reading
  and \<open>traceRsp\<close> the answer of \<^verbatim>\<open>TraceFlags::traceRsp\<close> for the current flags.
\<close>

record Helpers =
  char2Hex :: "char \<Rightarrow> 8 word"
  val2Hex :: "32 word \<Rightarrow> nat \<Rightarrow> bool \<Rightarrow> string"
  hex2Val :: "string \<Rightarrow> nat \<Rightarrow> bool \<Rightarrow> 32 word"
  hex2Ascii :: "string \<Rightarrow> string"
  rspUnescape :: "string \<Rightarrow> string"
  split :: "string \<Rightarrow> string \<Rightarrow> string list"
  parse :: "string \<Rightarrow> SyscallReplyPacket"
  packRcmdStr :: "string \<Rightarrow> bool \<Rightarrow> string"
  packHexstr :: "string \<Rightarrow> string"
  put_time :: "real \<Rightarrow> string"
  traceRsp :: "(string \<times> bool) list \<Rightarrow> bool"

text \<open>
  Modelled from the spec: \<^verbatim>\<open>Utils::hex2Char\<close> (Utils.cpp) turns a nibble into its
  character, and every hex digit the server emits is lowercase. The server only calls
  it with values below 16.
\<close>

definition hex2Char :: "nat \<Rightarrow> char" where
  "hex2Char d = (if d < 16 then ''0123456789abcdef'' ! d else CHR 0x00)"

subsection \<open>The server object\<close>

text \<open>
  \<open>pkt_data\<close> is the whole buffer of the packet, \<open>pkt_len\<close> its logical length and
  \<open>pkt_bufSize\<close> its capacity. \<open>rsp_inbox\<close> holds the payloads \<^verbatim>\<open>getPkt\<close> will
  deliver, \<open>rsp_outbox\<close> the payloads \<^verbatim>\<open>putPkt\<close> has sent, \<open>rsp_breaks n\<close> the
  answer of the \<open>n\<close>-th \<^verbatim>\<open>haveBreak\<close> poll and \<open>clock n\<close> the \<open>n\<close>-th clock
  reading, in seconds.
\<close>

record 't GdbServerImpl =
  cpu :: 't
  tlog :: "tcall list"
  traceFlags :: "(string \<times> bool) list"
  pkt_data :: string
  pkt_len :: nat
  pkt_bufSize :: nat
  rsp_connected :: bool
  rsp_inbox :: "string list"
  rsp_outbox :: "string list"
  rsp_breaks :: "nat \<Rightarrow> bool"
  rsp_polls :: nat
  clock :: "nat \<Rightarrow> real"
  clock_reads :: nat
  mTimeout :: real
  killBehaviour :: KillBehaviour
  mExitServer :: bool
  mSyscallContinuation :: SyscallContinuationType
  mpHash :: "MpType \<times> 32 word \<Rightarrow> 32 word option"
  cout :: string

definition interruptTimeout :: real where
  "interruptTimeout = 0.1"

subsection \<open>C strings and the packet buffer\<close>

abbreviation NUL :: char where
  "NUL \<equiv> CHR 0x00"

definition cstr :: "string \<Rightarrow> string" where
  "cstr buf = takeWhile (\<lambda>c. c \<noteq> NUL) buf"

text \<open>
  Storing the characters \<open>cs\<close> at offset \<open>off\<close> of a buffer. The buffer is taken to
  be large enough: a store past its end is not detected.
\<close>

definition poke :: "nat \<Rightarrow> string \<Rightarrow> string \<Rightarrow> string" where
  "poke off cs buf = take off buf @ cs @ drop (off + length cs) buf"

text \<open>\<^verbatim>\<open>sprintf (pkt->data, ...)\<close> with the formatted text \<open>str\<close>.\<close>

definition sprintf_pkt :: "string \<Rightarrow> 't GdbServerImpl \<Rightarrow> 't GdbServerImpl" where
  "sprintf_pkt str s = s\<lparr>pkt_data := poke 0 (str @ [NUL]) (pkt_data s)\<rparr>"

text \<open>\<^verbatim>\<open>pkt->setLen (strlen (pkt->data))\<close>.\<close>

definition setLen_strlen :: "'t GdbServerImpl \<Rightarrow> 't GdbServerImpl" where
  "setLen_strlen s = s\<lparr>pkt_len := length (cstr (pkt_data s))\<rparr>"

text \<open>
  Modelled from the spec: \<^verbatim>\<open>RspPacket::packStr\<close> (RspPacket.cpp) copies the ASCII
  string into the buffer and sets the length.
\<close>

definition packStr :: "string \<Rightarrow> 't GdbServerImpl \<Rightarrow> 't GdbServerImpl" where
  "packStr str s = s\<lparr>pkt_data := poke 0 (str @ [NUL]) (pkt_data s), pkt_len := length str\<rparr>"

text \<open>
  Modelled from the spec: the connection capability (AbstractConnection).
  \<^verbatim>\<open>putPkt\<close> sends the first \<open>pkt_len\<close> bytes of the buffer; \<^verbatim>\<open>getPkt\<close>
  stores the next inbound payload and a terminating NUL at the start of the buffer and
  fails when there is none; \<^verbatim>\<open>haveBreak\<close> is a poll; \<^verbatim>\<open>rspClose\<close> drops the
  connection.
\<close>

definition putPkt :: "'t GdbServerImpl \<Rightarrow> 't GdbServerImpl" where
  "putPkt s = s\<lparr>rsp_outbox := rsp_outbox s @ [take (pkt_len s) (pkt_data s)]\<rparr>"

definition getPkt :: "'t GdbServerImpl \<Rightarrow> bool \<times> 't GdbServerImpl" where
  "getPkt s =
     (case rsp_inbox s of
        [] \<Rightarrow> (False, s)
      | p # rest \<Rightarrow>
          (True, s\<lparr>rsp_inbox := rest,
                   pkt_data := poke 0 (p @ [NUL]) (pkt_data s),
                   pkt_len := length p\<rparr>))"

definition haveBreak :: "'t GdbServerImpl \<Rightarrow> bool \<times> 't GdbServerImpl" where
  "haveBreak s = (rsp_breaks s (rsp_polls s), s\<lparr>rsp_polls := Suc (rsp_polls s)\<rparr>)"

definition rspClose :: "'t GdbServerImpl \<Rightarrow> 't GdbServerImpl" where
  "rspClose s = s\<lparr>rsp_connected := False\<rparr>"

text \<open>\<^verbatim>\<open>system_clock::now ()\<close>.\<close>

definition now :: "'t GdbServerImpl \<Rightarrow> real \<times> 't GdbServerImpl" where
  "now s = (clock s (clock_reads s), s\<lparr>clock_reads := Suc (clock_reads s)\<rparr>)"

subsection \<open>Calls on the target\<close>

definition cpu_resume ::
  "'t ITarget \<Rightarrow> ResumeType \<Rightarrow> real option \<Rightarrow> 't GdbServerImpl \<Rightarrow> ResumeRes \<times> 't GdbServerImpl"
where
  "cpu_resume T ty tmo s =
     (case resume T ty tmo (cpu s) of
        (r, c) \<Rightarrow> (r, s\<lparr>cpu := c, tlog := tlog s @ [Resume ty tmo]\<rparr>))"

definition cpu_reset ::
  "'t ITarget \<Rightarrow> ResetType \<Rightarrow> 't GdbServerImpl \<Rightarrow> ResumeRes \<times> 't GdbServerImpl"
where
  "cpu_reset T ty s =
     (case reset T ty (cpu s) of
        (r, c) \<Rightarrow> (r, s\<lparr>cpu := c, tlog := tlog s @ [Reset ty]\<rparr>))"

definition cpu_readRegister ::
  "'t ITarget \<Rightarrow> int \<Rightarrow> 't GdbServerImpl \<Rightarrow> (int \<times> 32 word) \<times> 't GdbServerImpl"
where
  "cpu_readRegister T reg s =
     (readRegister T reg (cpu s), s\<lparr>tlog := tlog s @ [ReadRegister reg]\<rparr>)"

definition cpu_writeRegister ::
  "'t ITarget \<Rightarrow> int \<Rightarrow> 32 word \<Rightarrow> 't GdbServerImpl \<Rightarrow> int \<times> 't GdbServerImpl"
where
  "cpu_writeRegister T reg v s =
     (case writeRegister T reg v (cpu s) of
        (n, c) \<Rightarrow> (n, s\<lparr>cpu := c, tlog := tlog s @ [WriteRegister reg v]\<rparr>))"

definition cpu_read ::
  "'t ITarget \<Rightarrow> 32 word \<Rightarrow> nat \<Rightarrow> 't GdbServerImpl \<Rightarrow> 8 word list \<times> 't GdbServerImpl"
where
  "cpu_read T addr n s = (target_read T addr n (cpu s), s\<lparr>tlog := tlog s @ [Read addr n]\<rparr>)"

definition cpu_write ::
  "'t ITarget \<Rightarrow> 32 word \<Rightarrow> 8 word list \<Rightarrow> 't GdbServerImpl \<Rightarrow> nat \<times> 't GdbServerImpl"
where
  "cpu_write T addr bs s =
     (case target_write T addr bs (cpu s) of
        (n, c) \<Rightarrow> (n, s\<lparr>cpu := c, tlog := tlog s @ [Write addr bs]\<rparr>))"

definition cpu_command ::
  "'t ITarget \<Rightarrow> string \<Rightarrow> 't GdbServerImpl \<Rightarrow> (bool \<times> string) \<times> 't GdbServerImpl"
where
  "cpu_command T cmd s =
     (case command T cmd (cpu s) of
        (ok, out, c) \<Rightarrow> ((ok, out), s\<lparr>cpu := c, tlog := tlog s @ [Command cmd]\<rparr>))"

subsection \<open>rspReportException\<close>

definition rspReportException :: "TargetSignal \<Rightarrow> 't GdbServerImpl \<Rightarrow> 't GdbServerImpl" where
  "rspReportException sig s =
     putPkt (setLen_strlen
       (s\<lparr>pkt_data :=
            poke 0 [CHR ''S'',
                    hex2Char (TargetSignal_int sig div 16),
                    hex2Char (TargetSignal_int sig mod 16),
                    NUL] (pkt_data s)\<rparr>))"

subsection \<open>rspRemoveMatchpoint and rspInsertMatchpoint\<close>

text \<open>
  Both functions return right after sending the empty packet; the statements after that
  \<^verbatim>\<open>return\<close> are never reached.
\<close>

definition rspRemoveMatchpoint :: "'t GdbServerImpl \<Rightarrow> 't GdbServerImpl" where
  "rspRemoveMatchpoint s = putPkt (packStr [] s)"

definition rspInsertMatchpoint :: "'t GdbServerImpl \<Rightarrow> 't GdbServerImpl" where
  "rspInsertMatchpoint s = putPkt (packStr [] s)"

subsection \<open>Formatting with printf\<close>

text \<open>
  The conversion \<^verbatim>\<open>%x\<close> of an unsigned value: lowercase hexadecimal digits with no
  prefix and no leading zeros. \<^verbatim>\<open>PRIxREG\<close> (a macro of another file) is taken to be
  this conversion for the 32-bit register type, as the specification says that all
  numeric values are emitted as lowercase hex.
\<close>

definition xdigit :: "nat \<Rightarrow> char" where
  "xdigit d = ''0123456789abcdef'' ! d"

fun printf_x :: "nat \<Rightarrow> string" where
  "printf_x n = (if n < 16 then [xdigit n] else printf_x (n div 16) @ [xdigit (n mod 16)])"

declare printf_x.simps [simp del]

text \<open>The conversions \<^verbatim>\<open>%d\<close> and \<^verbatim>\<open><<\<close> of an unsigned value: decimal digits.\<close>

fun printf_u :: "nat \<Rightarrow> string" where
  "printf_u n =
     (if n < 10 then [''0123456789'' ! n] else printf_u (n div 10) @ [''0123456789'' ! (n mod 10)])"

declare printf_u.simps [simp del]

text \<open>Formatting into the packet, setting its length and sending it.\<close>

definition sendf :: "string \<Rightarrow> 't GdbServerImpl \<Rightarrow> 't GdbServerImpl" where
  "sendf str s = putPkt (setLen_strlen (sprintf_pkt str s))"

subsection \<open>stringLength\<close>

text \<open>
  The counter is a C \<^verbatim>\<open>int\<close>; it is modelled as a 32-bit word that wraps, and the
  address \<open>addr + count\<close> wraps as the unsigned addition of the source does. The loop
  ends at the first byte that is zero or at the first read that does not deliver one
  byte; it need not end.
\<close>

partial_function (option) stringLength_loop ::
  "'t ITarget \<Rightarrow> 32 word \<Rightarrow> 32 word \<Rightarrow> 't GdbServerImpl \<Rightarrow> (32 word \<times> 't GdbServerImpl) option"
where
  "stringLength_loop T addr count s =
     (case cpu_read T (addr + count) 1 s of
        (bs, s1) \<Rightarrow>
          (case bs of
             [ch] \<Rightarrow>
               if ch = 0 then Some (count + 1, s1)
               else stringLength_loop T addr (count + 1) s1
           | _ \<Rightarrow> Some (count, s1)))"

declare stringLength_loop.simps [code]

definition stringLength ::
  "'t ITarget \<Rightarrow> 32 word \<Rightarrow> 't GdbServerImpl \<Rightarrow> (32 word \<times> 't GdbServerImpl) option"
where
  "stringLength T addr s = stringLength_loop T addr 0 s"

subsection \<open>rspSyscallRequest\<close>

text \<open>The five register reads at the start of \<^verbatim>\<open>rspSyscallRequest\<close>.\<close>

definition syscall_args ::
  "'t ITarget \<Rightarrow> 't GdbServerImpl
     \<Rightarrow> (32 word \<times> 32 word \<times> 32 word \<times> 32 word \<times> 32 word) \<times> 't GdbServerImpl"
where
  "syscall_args T s0 =
     (let (r0, s1) = cpu_readRegister T 10 s0;
          (r1, s2) = cpu_readRegister T 11 s1;
          (r2, s3) = cpu_readRegister T 12 s2;
          (r3, s4) = cpu_readRegister T 13 s3;
          (r7, s5) = cpu_readRegister T 17 s4
      in ((snd r0, snd r1, snd r2, snd r3, snd r7), s5))"

text \<open>A register value under \<^verbatim>\<open>"%" PRIxREG\<close>, and an \<^verbatim>\<open>int\<close> under \<^verbatim>\<open>%x\<close>.\<close>

definition PRIxREG :: "32 word \<Rightarrow> string" where
  "PRIxREG v = printf_x (unat v)"

definition rspSyscallRequest ::
  "'t ITarget \<Rightarrow> SyscallContinuationType \<Rightarrow> 't GdbServerImpl
     \<Rightarrow> (error + 't GdbServerImpl) option"
where
  "rspSyscallRequest T cType s =
     (case syscall_args T (s\<lparr>mSyscallContinuation := cType\<rparr>) of
        ((a0, a1, a2, a3, a7), s5) \<Rightarrow>
          if a7 = 57 then Some (Inr (sendf (''Fclose,'' @ PRIxREG a0) s5))
          else if a7 = 62 then
            Some (Inr (sendf (''Flseek,'' @ PRIxREG a0 @ '','' @ PRIxREG a1 @ '','' @ PRIxREG a2) s5))
          else if a7 = 63 then
            Some (Inr (sendf (''Fread,'' @ PRIxREG a0 @ '','' @ PRIxREG a1 @ '','' @ PRIxREG a2) s5))
          else if a7 = 64 then
            Some (Inr (sendf (''Fwrite,'' @ PRIxREG a0 @ '','' @ PRIxREG a1 @ '','' @ PRIxREG a2) s5))
          else if a7 = 80 then
            Some (Inr (sendf (''Ffstat,'' @ PRIxREG a0 @ '','' @ PRIxREG a1) s5))
          else if a7 = 93 then
            Some (Inr (sendf (''W'' @ PRIxREG a0)
                         (s5\<lparr>mSyscallContinuation := SYSCALL_NONE_PENDING\<rparr>)))
          else if a7 = 169 then
            Some (Inr (sendf (''Fgettimeofday,'' @ PRIxREG a0 @ '','' @ PRIxREG a1) s5))
          else if a7 = 1024 then
            (case stringLength T a0 s5 of
               None \<Rightarrow> None
             | Some (n, s6) \<Rightarrow>
                 Some (Inr (sendf (''Fopen,'' @ PRIxREG a0 @ ''/'' @ PRIxREG n @ '',''
                                     @ PRIxREG a1 @ '','' @ PRIxREG a2) s6)))
          else if a7 = 1026 then
            (case stringLength T a0 s5 of
               None \<Rightarrow> None
             | Some (n, s6) \<Rightarrow>
                 Some (Inr (sendf (''Funlink,'' @ PRIxREG a0 @ ''/'' @ PRIxREG n) s6)))
          else if a7 = 1038 then
            (case stringLength T a0 s5 of
               None \<Rightarrow> None
             | Some (n, s6) \<Rightarrow>
                 Some (Inr (sendf (''Fstat,'' @ PRIxREG a0 @ ''/'' @ PRIxREG n @ '',''
                                     @ PRIxREG a1) s6)))
          else Some (Inr (rspReportException TargetSignal_TRAP s5)))"

subsection \<open>rspContinue\<close>

text \<open>
  The \<^verbatim>\<open>for (;;)\<close> loop. The clock is read only when the user timeout is not zero
  (the \<^verbatim>\<open>&&\<close> of the source does not evaluate its second operand otherwise).
\<close>

partial_function (option) rspContinue_loop ::
  "'t ITarget \<Rightarrow> real \<Rightarrow> 't GdbServerImpl \<Rightarrow> (error + 't GdbServerImpl) option"
where
  "rspContinue_loop T timeout_end s =
     (case cpu_resume T CONTINUE (Some interruptTimeout) s of
        (resType, s1) \<Rightarrow>
          (case resType of
             SYSCALL \<Rightarrow> rspSyscallRequest T SYSCALL_THEN_FINISH_CONTINUE s1
           | STEPPED \<Rightarrow> Some (Inr (rspReportException TargetSignal_TRAP s1))
           | INTERRUPTED \<Rightarrow> Some (Inr (rspReportException TargetSignal_TRAP s1))
           | TIMEOUT \<Rightarrow>
               (case (if mTimeout s1 \<noteq> 0
                      then (case now s1 of (t, s2) \<Rightarrow> (timeout_end < t, s2))
                      else (False, s1)) of
                  (expired, s2) \<Rightarrow>
                    if expired then
                      Some (Inr (rspReportException TargetSignal_XCPU
                                   (snd (cpu_resume T STOP None s2))))
                    else
                      (case haveBreak s2 of
                         (brk, s3) \<Rightarrow>
                           if brk then
                             Some (Inr (rspReportException TargetSignal_INT
                                          (snd (cpu_resume T STOP None s3))))
                           else rspContinue_loop T timeout_end s3))
           | _ \<Rightarrow> Some (Inl EXIT_FAILURE)))"

declare rspContinue_loop.simps [code]

definition rspContinue ::
  "'t ITarget \<Rightarrow> 't GdbServerImpl \<Rightarrow> (error + 't GdbServerImpl) option"
where
  "rspContinue T s =
     (case now s of
        (t0, s0) \<Rightarrow>
          (let timeout_end = t0 + mTimeout s0 in
           case haveBreak s0 of
             (brk, s1) \<Rightarrow>
               if brk then
                 Some (Inr (rspReportException TargetSignal_INT
                              (snd (cpu_resume T STOP None s1))))
               else rspContinue_loop T timeout_end s1))"

subsection \<open>rspSingleStep\<close>

definition rspSingleStep ::
  "'t ITarget \<Rightarrow> 't GdbServerImpl \<Rightarrow> (error + 't GdbServerImpl) option"
where
  "rspSingleStep T s =
     (case haveBreak s of
        (brk, s1) \<Rightarrow>
          if brk then
            Some (Inr (rspReportException TargetSignal_INT (snd (cpu_resume T STOP None s1))))
          else
            (case cpu_resume T STEP None s1 of
               (resType, s2) \<Rightarrow>
                 if resType = SYSCALL then rspSyscallRequest T SYSCALL_THEN_FINISH_STEPPING s2
                 else
                   (case haveBreak s2 of
                      (brk2, s3) \<Rightarrow>
                        if brk2 then
                          Some (Inr (rspReportException TargetSignal_INT
                                       (snd (cpu_resume T STOP None s3))))
                        else Some (Inr (rspReportException TargetSignal_TRAP s3)))))"

subsection \<open>rspSyscallReply\<close>

definition rspSyscallReply ::
  "Helpers \<Rightarrow> 't ITarget \<Rightarrow> 't GdbServerImpl \<Rightarrow> (error + 't GdbServerImpl) option"
where
  "rspSyscallReply H T s =
     (let sysCont = mSyscallContinuation s;
          s1 = s\<lparr>mSyscallContinuation := SYSCALL_NONE_PENDING\<rparr>;
          p = parse H (cstr (pkt_data s1))
      in
        if valid p then
          (let s2 = (if retcode p \<noteq> - 1 then snd (cpu_writeRegister T 10 (retcode p) s1)
                     else s1)
           in
             if hasCtrlC p then Some (Inr (rspReportException TargetSignal_INT s2))
             else
               (case sysCont of
                  SYSCALL_NONE_PENDING \<Rightarrow> Some (Inr (rspReportException TargetSignal_TRAP s2))
                | SYSCALL_THEN_FINISH_STEPPING \<Rightarrow>
                    Some (Inr (rspReportException TargetSignal_TRAP s2))
                | SYSCALL_THEN_FINISH_CONTINUE \<Rightarrow> rspContinue T s2))
        else Some (Inr (putPkt (packStr ''E01'' s1))))"

subsection \<open>The C library: character classes, string comparison, sscanf\<close>

definition isspace :: "char \<Rightarrow> bool" where
  "isspace c = (c = CHR '' '' \<or> (9 \<le> (of_char c :: nat) \<and> (of_char c :: nat) \<le> 13))"

definition tolower :: "char \<Rightarrow> char" where
  "tolower c =
     (if 65 \<le> (of_char c :: nat) \<and> (of_char c :: nat) \<le> 90
      then char_of ((of_char c :: nat) + 32) else c)"

text \<open>
  On strings without NUL, \<^verbatim>\<open>strncmp (a, b, n) == 0\<close> compares the first \<open>n\<close>
  characters, \<^verbatim>\<open>strcmp\<close> compares all of them and \<^verbatim>\<open>strcasecmp\<close> ignores case.
\<close>

definition strncmp_eq :: "string \<Rightarrow> string \<Rightarrow> nat \<Rightarrow> bool" where
  "strncmp_eq a b n = (take n a = take n b)"

definition strcasecmp_eq :: "string \<Rightarrow> string \<Rightarrow> bool" where
  "strcasecmp_eq a b = (map tolower a = map tolower b)"

text \<open>The value of a digit in base 16, or \<open>None\<close> for any other character.\<close>

definition xval :: "char \<Rightarrow> nat option" where
  "xval c =
     (let n = (of_char c :: nat) in
      if 48 \<le> n \<and> n \<le> 57 then Some (n - 48)
      else if 97 \<le> n \<and> n \<le> 102 then Some (n - 87)
      else if 65 \<le> n \<and> n \<le> 70 then Some (n - 55)
      else None)"

definition isdigit :: "char \<Rightarrow> bool" where
  "isdigit c = (48 \<le> (of_char c :: nat) \<and> (of_char c :: nat) \<le> 57)"

definition digits_value :: "nat \<Rightarrow> string \<Rightarrow> nat" where
  "digits_value base ds = foldl (\<lambda>a c. base * a + the (xval c)) 0 ds"

definition scan_sign :: "string \<Rightarrow> bool \<times> string" where
  "scan_sign s =
     (case s of
        [] \<Rightarrow> (False, s)
      | c # r \<Rightarrow> if c = CHR ''-'' then (True, r) else if c = CHR ''+'' then (False, r)
                 else (False, s))"

text \<open>
  The conversions \<^verbatim>\<open>%x\<close> and \<^verbatim>\<open>%lx\<close>: white space is skipped, then come an
  optional sign, an optional prefix \<^verbatim>\<open>0x\<close> and the hexadecimal digits; at least one
  digit is needed (the \<^verbatim>\<open>0\<close> of a prefix counts, as in the GNU C library). The
  result is the sign, the magnitude and the rest of the input.
\<close>

definition scan_x :: "string \<Rightarrow> (bool \<times> nat \<times> string) option" where
  "scan_x s =
     (case scan_sign (dropWhile isspace s) of
        (neg, s2) \<Rightarrow>
          (let prefixed =
                 (case s2 of
                    c0 # c1 # _ \<Rightarrow> c0 = CHR ''0'' \<and> (c1 = CHR ''x'' \<or> c1 = CHR ''X'')
                  | _ \<Rightarrow> False);
               s3 = (if prefixed then drop 2 s2 else s2);
               ds = takeWhile (\<lambda>c. xval c \<noteq> None) s3
           in if ds = [] \<and> \<not> prefixed then None
              else Some (neg, digits_value 16 ds, drop (length ds) s3)))"

text \<open>The conversion \<^verbatim>\<open>%d\<close>.\<close>

definition scan_d :: "string \<Rightarrow> (bool \<times> nat \<times> string) option" where
  "scan_d s =
     (case scan_sign (dropWhile isspace s) of
        (neg, s2) \<Rightarrow>
          (let ds = takeWhile isdigit s2
           in if ds = [] then None
              else Some (neg, digits_value 10 ds, drop (length ds) s2)))"

text \<open>
  The value stored for an unsigned conversion is that of \<^verbatim>\<open>strtoul\<close> (64-bit
  \<^verbatim>\<open>unsigned long\<close>, saturating), for a signed conversion that of \<^verbatim>\<open>strtol\<close>;
  storing it in a 32-bit object keeps the low 32 bits.
\<close>

definition strtoul_value :: "bool \<Rightarrow> nat \<Rightarrow> 64 word" where
  "strtoul_value neg v = (if 2 ^ 64 \<le> v then - 1 else if neg then - of_nat v else of_nat v)"

definition strtol_value :: "bool \<Rightarrow> nat \<Rightarrow> 64 word" where
  "strtol_value neg v =
     (if neg then (if 2 ^ 63 < v then 2 ^ 63 else - of_nat v)
      else (if 2 ^ 63 \<le> v then 2 ^ 63 - 1 else of_nat v))"

text \<open>A character of the format that is neither white space nor a conversion.\<close>

definition scan_lit :: "char \<Rightarrow> string \<Rightarrow> string option" where
  "scan_lit c s = (case s of [] \<Rightarrow> None | x # r \<Rightarrow> if x = c then Some r else None)"

fun scan_lits :: "string \<Rightarrow> string \<Rightarrow> string option" where
  "scan_lits [] s = Some s"
| "scan_lits (c # cs) s = (case scan_lit c s of None \<Rightarrow> None | Some r \<Rightarrow> scan_lits cs r)"

text \<open>
  \<^verbatim>\<open>sscanf (s, "<c>%x,%x:", ...)\<close> returning 2, with the two values as
  \<^verbatim>\<open>unsigned long\<close>. The colon of the format plays no part in the result.
\<close>

definition sscanf_c_x_x :: "char \<Rightarrow> string \<Rightarrow> (64 word \<times> 64 word) option" where
  "sscanf_c_x_x c s =
     (case scan_lit c s of
        None \<Rightarrow> None
      | Some r1 \<Rightarrow>
          (case scan_x r1 of
             None \<Rightarrow> None
           | Some (n1, v1, r2) \<Rightarrow>
               (case scan_lit CHR '','' r2 of
                  None \<Rightarrow> None
                | Some r3 \<Rightarrow>
                    (case scan_x r3 of
                       None \<Rightarrow> None
                     | Some (n2, v2, r4) \<Rightarrow>
                         Some (strtoul_value n1 v1, strtoul_value n2 v2)))))"

text \<open>\<^verbatim>\<open>sscanf (s, "p%x", &regNum)\<close> returning 1.\<close>

definition sscanf_p_x :: "string \<Rightarrow> 32 word option" where
  "sscanf_p_x s =
     (case scan_lit CHR ''p'' s of
        None \<Rightarrow> None
      | Some r1 \<Rightarrow>
          (case scan_x r1 of
             None \<Rightarrow> None
           | Some (n1, v1, r2) \<Rightarrow> Some (ucast (strtoul_value n1 v1))))"

text \<open>
  \<^verbatim>\<open>sscanf (s, "P%x=%8s", &regNum, valstr)\<close> returning 2: the conversion
  \<^verbatim>\<open>%8s\<close> skips white space and stores at most 8 characters that are not white
  space, at least one.
\<close>

definition sscanf_P_x_s :: "string \<Rightarrow> (32 word \<times> string) option" where
  "sscanf_P_x_s s =
     (case scan_lit CHR ''P'' s of
        None \<Rightarrow> None
      | Some r1 \<Rightarrow>
          (case scan_x r1 of
             None \<Rightarrow> None
           | Some (n1, v1, r2) \<Rightarrow>
               (case scan_lit CHR ''='' r2 of
                  None \<Rightarrow> None
                | Some r3 \<Rightarrow>
                    (let w = take 8 (takeWhile (\<lambda>c. \<not> isspace c) (dropWhile isspace r3))
                     in if w = [] then None
                        else Some (ucast (strtoul_value n1 v1), w)))))"

text \<open>
  \<^verbatim>\<open>sscanf (cmd, "timeout %d", &timeout)\<close> returning 1: the blank of the format
  matches any amount of white space.
\<close>

definition sscanf_timeout_d :: "string \<Rightarrow> 32 word option" where
  "sscanf_timeout_d s =
     (case scan_lits ''timeout'' s of
        None \<Rightarrow> None
      | Some r1 \<Rightarrow>
          (case scan_d (dropWhile isspace r1) of
             None \<Rightarrow> None
           | Some (n1, v1, r2) \<Rightarrow> Some (ucast (strtol_value n1 v1))))"

text \<open>
  \<^verbatim>\<open>memchr (buf, c, n)\<close> as the index of the first \<open>c\<close> among the first \<open>n\<close>
  bytes, and the byte at an index of the buffer.
\<close>

definition memchr :: "string \<Rightarrow> char \<Rightarrow> nat \<Rightarrow> nat option" where
  "memchr buf c n =
     (let pre = takeWhile (\<lambda>x. x \<noteq> c) (take n buf)
      in if length pre < length (take n buf) then Some (length pre) else None)"

definition peek :: "string \<Rightarrow> nat \<Rightarrow> char" where
  "peek buf i = (if i < length buf then buf ! i else NUL)"

text \<open>The lines \<^verbatim>\<open>getline (ss, line, '\n')\<close> delivers until it fails.\<close>

fun getlines :: "string \<Rightarrow> string list" where
  "getlines [] = []"
| "getlines (c # cs) =
     (if c = CHR 0x0A then [] # getlines cs
      else (case getlines cs of [] \<Rightarrow> [[c]] | l # ls \<Rightarrow> (c # l) # ls))"

subsection \<open>Register and memory packets\<close>

text \<open>
  Modelled from the spec: \<^verbatim>\<open>RISCV_NUM_REGS\<close> is 33 and \<^verbatim>\<open>DUMMY_TID\<close> is 1 (both
  are constants of GdbServerImpl.h). The register type \<^verbatim>\<open>uint_reg_t\<close> is taken to be
  the 32-bit type of the target wrapper at the end of the source file.
\<close>

definition RISCV_NUM_REGS :: nat where
  "RISCV_NUM_REGS = 33"

definition DUMMY_TID :: nat where
  "DUMMY_TID = 1"

definition sizeof_uint_reg_t :: nat where
  "sizeof_uint_reg_t = 4"

text \<open>\<^verbatim>\<open>pkt->packStr (str); rsp->putPkt (pkt)\<close>.\<close>

definition reply :: "string \<Rightarrow> 't GdbServerImpl \<Rightarrow> 't GdbServerImpl" where
  "reply str s = putPkt (packStr str s)"

fun rspReadAllRegs_loop ::
  "Helpers \<Rightarrow> 't ITarget \<Rightarrow> nat list \<Rightarrow> nat \<Rightarrow> 't GdbServerImpl
     \<Rightarrow> error + nat \<times> 't GdbServerImpl"
where
  "rspReadAllRegs_loop H T [] pktSize s = Inr (pktSize, s)"
| "rspReadAllRegs_loop H T (regNum # rest) pktSize s =
     (case cpu_readRegister T (int regNum) s of
        ((byteSize, val), s1) \<Rightarrow>
          if byteSize < 0 then Inl UNDEFINED
          else rspReadAllRegs_loop H T rest (pktSize + nat byteSize * 2)
                 (s1\<lparr>pkt_data := poke pktSize (val2Hex H val (nat byteSize) True) (pkt_data s1)\<rparr>))"

definition rspReadAllRegs ::
  "Helpers \<Rightarrow> 't ITarget \<Rightarrow> 't GdbServerImpl \<Rightarrow> error + 't GdbServerImpl"
where
  "rspReadAllRegs H T s =
     (case rspReadAllRegs_loop H T [0..<RISCV_NUM_REGS] 0 s of
        Inl e \<Rightarrow> Inl e
      | Inr (pktSize, s1) \<Rightarrow>
          Inr (putPkt (s1\<lparr>pkt_data := poke pktSize [NUL] (pkt_data s1), pkt_len := pktSize\<rparr>)))"

fun rspWriteAllRegs_loop ::
  "Helpers \<Rightarrow> 't ITarget \<Rightarrow> nat list \<Rightarrow> nat \<Rightarrow> 't GdbServerImpl \<Rightarrow> 't GdbServerImpl"
where
  "rspWriteAllRegs_loop H T [] pktSize s = s"
| "rspWriteAllRegs_loop H T (regNum # rest) pktSize s =
     (let val = hex2Val H (drop pktSize (pkt_data s)) sizeof_uint_reg_t True
      in rspWriteAllRegs_loop H T rest (pktSize + sizeof_uint_reg_t * 2)
           (snd (cpu_writeRegister T (int regNum) val s)))"

definition rspWriteAllRegs ::
  "Helpers \<Rightarrow> 't ITarget \<Rightarrow> 't GdbServerImpl \<Rightarrow> 't GdbServerImpl"
where
  "rspWriteAllRegs H T s = reply ''OK'' (rspWriteAllRegs_loop H T [0..<RISCV_NUM_REGS] 0 s)"

text \<open>
  The length of \<^verbatim>\<open>rspReadMem\<close> and \<^verbatim>\<open>rspWriteMem\<close> is a C \<^verbatim>\<open>int\<close>: a 32-bit
  word read as signed, whose product \<open>len * 2\<close> wraps.
\<close>

fun rspReadMem_loop ::
  "'t ITarget \<Rightarrow> 32 word \<Rightarrow> nat list \<Rightarrow> 't GdbServerImpl \<Rightarrow> 't GdbServerImpl"
where
  "rspReadMem_loop T addr [] s = s"
| "rspReadMem_loop T addr (off # rest) s =
     (case cpu_read T (addr + of_nat off) 1 s of
        (bs, s1) \<Rightarrow>
          rspReadMem_loop T addr rest
            (case bs of
               [ch] \<Rightarrow>
                 s1\<lparr>pkt_data :=
                      poke (off * 2) [hex2Char (unat ch div 16), hex2Char (unat ch mod 16)]
                        (pkt_data s1)\<rparr>
             | _ \<Rightarrow> s1))"

definition rspReadMem :: "'t ITarget \<Rightarrow> 't GdbServerImpl \<Rightarrow> 't GdbServerImpl" where
  "rspReadMem T s =
     (case sscanf_c_x_x CHR ''m'' (cstr (pkt_data s)) of
        None \<Rightarrow> reply ''E01'' s
      | Some (a, l) \<Rightarrow>
          (let addr = (ucast a :: 32 word);
               len0 = (ucast l :: 32 word);
               len = (if int (pkt_bufSize s) \<le> sint (len0 * 2)
                      then (int (pkt_bufSize s) - 1) div 2 else sint len0);
               s1 = rspReadMem_loop T addr [0..<nat len] s;
               s2 = s1\<lparr>pkt_data := poke (nat len * 2) [NUL] (pkt_data s1)\<rparr>
           in putPkt (setLen_strlen s2)))"

fun rspWriteMem_loop ::
  "Helpers \<Rightarrow> 't ITarget \<Rightarrow> 32 word \<Rightarrow> nat \<Rightarrow> nat list \<Rightarrow> 't GdbServerImpl \<Rightarrow> 't GdbServerImpl"
where
  "rspWriteMem_loop H T addr symDat [] s = s"
| "rspWriteMem_loop H T addr symDat (off # rest) s =
     (let nyb1 = char2Hex H (peek (pkt_data s) (symDat + off * 2));
          nyb2 = char2Hex H (peek (pkt_data s) (symDat + off * 2 + 1));
          val = push_bit 4 nyb1 OR nyb2
      in rspWriteMem_loop H T addr symDat rest (snd (cpu_write T (addr + of_nat off) [val] s)))"

definition rspWriteMem ::
  "Helpers \<Rightarrow> 't ITarget \<Rightarrow> 't GdbServerImpl \<Rightarrow> error + 't GdbServerImpl"
where
  "rspWriteMem H T s =
     (case sscanf_c_x_x CHR ''M'' (cstr (pkt_data s)) of
        None \<Rightarrow> Inr (reply ''E01'' s)
      | Some (a, l) \<Rightarrow>
          (let addr = (ucast a :: 32 word);
               len = (ucast l :: 32 word)
           in case memchr (pkt_data s) CHR '':'' (pkt_bufSize s) of
                None \<Rightarrow> Inl UNDEFINED
              | Some colon \<Rightarrow>
                  (let symDat = colon + 1;
                       datLen = int (pkt_len s) - int symDat
                   in if sint (len * 2) \<noteq> datLen then Inr (reply ''E01'' s)
                      else Inr (reply ''OK''
                             (rspWriteMem_loop H T addr symDat [0..<nat (sint len)] s)))))"

definition rspReadReg ::
  "Helpers \<Rightarrow> 't ITarget \<Rightarrow> 't GdbServerImpl \<Rightarrow> 't GdbServerImpl"
where
  "rspReadReg H T s =
     (case sscanf_p_x (cstr (pkt_data s)) of
        None \<Rightarrow> reply ''E01'' s
      | Some regNum \<Rightarrow>
          (case cpu_readRegister T (sint regNum) s of
             ((byteSize, val), s1) \<Rightarrow>
               if byteSize < 0 then reply ''E01'' s1
               else putPkt (setLen_strlen
                      (s1\<lparr>pkt_data := poke 0 (val2Hex H val (nat byteSize) True) (pkt_data s1)\<rparr>))))"

text \<open>
  \<^verbatim>\<open>rspWriteReg\<close> converts \<open>2 * sizeof (uint_reg_t)\<close> characters of \<^verbatim>\<open>valstr\<close>;
  when \<^verbatim>\<open>sscanf\<close> stored fewer, the characters after the terminator are
  indeterminate.
\<close>

definition rspWriteReg ::
  "Helpers \<Rightarrow> 't ITarget \<Rightarrow> 't GdbServerImpl \<Rightarrow> error + 't GdbServerImpl"
where
  "rspWriteReg H T s =
     (case sscanf_P_x_s (cstr (pkt_data s)) of
        None \<Rightarrow> Inr (reply ''E01'' s)
      | Some (regNum, valstr) \<Rightarrow>
          if length valstr < 2 * sizeof_uint_reg_t then Inl UNDEFINED
          else
            (let val = hex2Val H valstr sizeof_uint_reg_t True
             in Inr (reply ''OK'' (snd (cpu_writeRegister T (sint regNum) val s)))))"

text \<open>
  \<^verbatim>\<open>rspWriteMemBin\<close>: the length is a \<^verbatim>\<open>size_t\<close>. The payload after the colon is
  unescaped in place and its first \<open>min len newLen\<close> bytes are written in one call.
\<close>

definition rspWriteMemBin ::
  "Helpers \<Rightarrow> 't ITarget \<Rightarrow> 't GdbServerImpl \<Rightarrow> error + 't GdbServerImpl"
where
  "rspWriteMemBin H T s =
     (case sscanf_c_x_x CHR ''X'' (cstr (pkt_data s)) of
        None \<Rightarrow> Inr (reply ''E01'' s)
      | Some (a, l) \<Rightarrow>
          (let addr = (ucast a :: 32 word);
               len = unat l
           in case memchr (pkt_data s) CHR '':'' (pkt_bufSize s) of
                None \<Rightarrow> Inl UNDEFINED
              | Some colon \<Rightarrow>
                  (let off = colon + 1
                   in if pkt_len s < off then Inl UNDEFINED
                      else
                        (let bindat = rspUnescape H (take (pkt_len s - off) (drop off (pkt_data s)));
                             newLen = length bindat;
                             len' = (if newLen \<noteq> len then min len newLen else len);
                             s1 = s\<lparr>pkt_data := poke off bindat (pkt_data s)\<rparr>
                         in Inr (reply ''OK''
                              (snd (cpu_write T addr (map of_char (take len' bindat)) s1)))))))"

subsection \<open>Trace flags\<close>

text \<open>
  Modelled from the spec: the trace flags (TraceFlags.cpp) are named boolean flags,
  queryable by name and iterable.
\<close>

definition isFlag :: "(string \<times> bool) list \<Rightarrow> string \<Rightarrow> bool" where
  "isFlag fl name = (map_of fl name \<noteq> None)"

definition flag :: "(string \<times> bool) list \<Rightarrow> string \<Rightarrow> bool" where
  "flag fl name = (case map_of fl name of None \<Rightarrow> False | Some v \<Rightarrow> v)"

definition flag_set :: "string \<Rightarrow> bool \<Rightarrow> (string \<times> bool) list \<Rightarrow> (string \<times> bool) list" where
  "flag_set name v fl = map (\<lambda>(n, x). if n = name then (n, v) else (n, x)) fl"

subsection \<open>Monitor commands\<close>

definition endl :: string where
  "endl = [CHR 0x0A]"

text \<open>\<^verbatim>\<open>pkt->packRcmdStr (str, true); rsp->putPkt (pkt)\<close>.\<close>

definition putRcmd :: "Helpers \<Rightarrow> string \<Rightarrow> 't GdbServerImpl \<Rightarrow> 't GdbServerImpl" where
  "putRcmd H str s = putPkt (packStr (packRcmdStr H str True) s)"

text \<open>\<^verbatim>\<open>pkt->packHexstr (str); rsp->putPkt (pkt)\<close>.\<close>

definition putHexstr :: "Helpers \<Rightarrow> string \<Rightarrow> 't GdbServerImpl \<Rightarrow> 't GdbServerImpl" where
  "putHexstr H str s = putPkt (packStr (packHexstr H str) s)"

definition mess :: "string list" where
  "mess = map (\<lambda>l. l @ endl)
     [''The following generic monitor commands are supported:'',
      ''  help'',
      ''    Produce this message'',
      ''  reset [cold | warm]'',
      ''    Reset the simulator (default warm)'',
      ''  exit'',
      ''    Exit the GDB server'',
      ''  timeout <interval>'',
      ''    Maximum time in seconds taken by continue packet'',
      ''  cyclecount'',
      ''    Report cycles executed since last report and since reset'',
      ''  instrcount'',
      ''    Report instructions executed since last report and since reset'',
      ''  set debug <level>'',
      ''    Set debug messaging in target to <level>'',
      ''  show debug'',
      ''    Show current level of debug messaging in target'',
      ''  set remote-debug <0|1>'',
      ''    Disable/enable tracing of Remote Serial Protocol (RSP)'',
      ''  show remote-debug'',
      ''    Show whether RSP tracing is enabled'',
      ''  echo <message>'',
      ''    Echo <message> on stdout of the gdbserver'']"

text \<open>
  The fallback of the three monitor functions: the command goes to the target; its
  output and \<^verbatim>\<open>OK\<close> are sent when the target accepts it, the error code \<open>failed\<close>
  otherwise.
\<close>

definition toTarget ::
  "Helpers \<Rightarrow> 't ITarget \<Rightarrow> string \<Rightarrow> string \<Rightarrow> 't GdbServerImpl \<Rightarrow> 't GdbServerImpl"
where
  "toTarget H T fullCmd failed s =
     (case cpu_command T fullCmd s of
        ((ok, out), s1) \<Rightarrow>
          if ok then reply ''OK'' (putRcmd H out s1) else reply failed s1)"

definition rspSetCommand ::
  "Helpers \<Rightarrow> 't ITarget \<Rightarrow> string \<Rightarrow> 't GdbServerImpl \<Rightarrow> 't GdbServerImpl"
where
  "rspSetCommand H T cmd s =
     (let tokens = split H cmd '' '' in
      if length tokens = 3 \<and> tokens ! 0 = ''debug'' then
        (let flagName = tokens ! 1 in
         if \<not> isFlag (traceFlags s) flagName then reply ''E01'' s
         else if strcasecmp_eq (tokens ! 2) ''0'' \<or> strcasecmp_eq (tokens ! 2) ''off''
                 \<or> strcasecmp_eq (tokens ! 2) ''false''
         then reply ''OK'' (s\<lparr>traceFlags := flag_set flagName False (traceFlags s)\<rparr>)
         else if strcasecmp_eq (tokens ! 2) ''1'' \<or> strcasecmp_eq (tokens ! 2) ''on''
                 \<or> strcasecmp_eq (tokens ! 2) ''true''
         then reply ''OK'' (s\<lparr>traceFlags := flag_set flagName True (traceFlags s)\<rparr>)
         else reply ''E02'' s)
      else toTarget H T (''set '' @ cmd) ''E04'' s)"

definition show_flag :: "(string \<times> bool) list \<Rightarrow> string \<Rightarrow> string" where
  "show_flag fl name = name @ '': '' @ (if flag fl name then ''ON'' else ''OFF'') @ endl"

definition rspShowCommand ::
  "Helpers \<Rightarrow> 't ITarget \<Rightarrow> string \<Rightarrow> 't GdbServerImpl \<Rightarrow> 't GdbServerImpl"
where
  "rspShowCommand H T cmd s =
     (let tokens = split H cmd '' '' in
      if length tokens = 1 \<and> tokens ! 0 = ''debug'' then
        reply ''OK''
          (putRcmd H (concat (map (\<lambda>(n, v). show_flag (traceFlags s) n) (traceFlags s))) s)
      else if length tokens = 2 \<and> tokens ! 0 = ''debug'' then
        (let flagName = tokens ! 1 in
         if \<not> isFlag (traceFlags s) flagName then reply ''E01'' s
         else reply ''OK'' (putRcmd H (show_flag (traceFlags s) flagName) s))
      else toTarget H T (''show '' @ cmd) ''E04'' s)"

definition rspCommand ::
  "Helpers \<Rightarrow> 't ITarget \<Rightarrow> 't GdbServerImpl \<Rightarrow> error + 't GdbServerImpl"
where
  "rspCommand H T s =
     (let cmd = cstr (hex2Ascii H (cstr (drop (length ''qRcmd,'') (pkt_data s))));
          s0 = (if traceRsp H (traceFlags s)
                then s\<lparr>cout := cout s @ ''RSP trace: qRcmd,'' @ cmd @ endl\<rparr> else s)
      in
        if strncmp_eq ''help'' cmd (length cmd) then
          (let s1 = foldl (\<lambda>st m. putRcmd H m st) s0 mess in
           case cpu_command T ''help'' s1 of
             ((ok, out), s2) \<Rightarrow>
               Inr (reply ''OK''
                 (if ok then
                    foldl (\<lambda>st line. putRcmd H (line @ endl) st)
                      (putRcmd H
                         (''The following target specific monitor commands are supported:''
                            @ endl) s2)
                      (getlines out)
                  else putRcmd H ''There are no target specific monitor commands'' s2)))
        else if cmd = ''reset'' \<or> cmd = ''reset warm'' then
          (case cpu_reset T WARM s0 of
             (r, s1) \<Rightarrow> if r \<noteq> SUCCESS then Inl EXIT_FAILURE else Inr (reply ''OK'' s1))
        else if cmd = ''reset cold'' then
          (case cpu_reset T COLD s0 of
             (r, s1) \<Rightarrow> if r \<noteq> SUCCESS then Inl EXIT_FAILURE else Inr (reply ''OK'' s1))
        else if cmd = ''exit'' then Inr (s0\<lparr>mExitServer := True\<rparr>)
        else
          (case sscanf_timeout_d cmd of
             Some timeout \<Rightarrow> Inr (reply ''OK'' (s0\<lparr>mTimeout := real_of_int (sint timeout)\<rparr>))
           | None \<Rightarrow>
               if cmd = ''timestamp'' then
                 (case now s0 of
                    (t, s1) \<Rightarrow> Inr (reply ''OK'' (putHexstr H (put_time H t @ endl) s1)))
               else if cmd = ''cyclecount'' then
                 Inr (reply ''OK''
                   (putHexstr H (printf_u (unat (getCycleCount T (cpu s0))) @ endl)
                      (s0\<lparr>tlog := tlog s0 @ [GetCycleCount]\<rparr>)))
               else if cmd = ''instrcount'' then
                 Inr (reply ''OK''
                   (putHexstr H (printf_u (unat (getInstrCount T (cpu s0))) @ endl)
                      (s0\<lparr>tlog := tlog s0 @ [GetInstrCount]\<rparr>)))
               else if strncmp_eq cmd ''echo'' 4 then
                 Inr (reply ''OK''
                   (s0\<lparr>cout := cout s0 @ dropWhile isspace (drop 4 cmd) @ endl\<rparr>))
               else if strncmp_eq cmd ''set '' (length ''set '') then
                 Inr (rspSetCommand H T (dropWhile isspace (drop (length ''set '') cmd)) s0)
               else if strncmp_eq cmd ''show '' (length ''show '') then
                 Inr (rspShowCommand H T (dropWhile isspace (drop (length ''show '') cmd)) s0)
               else Inr (toTarget H T cmd ''E01'' s0)))"

subsection \<open>Query and set packets\<close>

definition rspQuery ::
  "Helpers \<Rightarrow> 't ITarget \<Rightarrow> 't GdbServerImpl \<Rightarrow> error + 't GdbServerImpl"
where
  "rspQuery H T s =
     (let d = cstr (pkt_data s) in
      if d = ''qC'' then Inr (sendf (''QC'' @ printf_x DUMMY_TID) s)
      else if strncmp_eq ''qCRC'' d (length ''qCRC'') then Inr (reply ''E01'' s)
      else if d = ''qfThreadInfo'' then Inr (sendf (''m'' @ printf_x DUMMY_TID) s)
      else if d = ''qsThreadInfo'' then Inr (reply ''l'' s)
      else if strncmp_eq ''qL'' d (length ''qL'') then Inr (reply ''qM001'' s)
      else if strncmp_eq ''qRcmd,'' d (length ''qRcmd,'') then rspCommand H T s
      else if strncmp_eq ''qSupported'' d (length ''qSupported'') then
        Inr (sendf (''PacketSize='' @ printf_x (pkt_bufSize s)) s)
      else if strncmp_eq ''qSymbol:'' d (length ''qSymbol:'') then Inr (reply ''OK'' s)
      else if strncmp_eq ''qThreadExtraInfo,'' d (length ''qThreadExtraInfo,'') then
        Inr (sendf ''52756e6e61626c6500'' s)
      else Inr (reply [] s))"

definition rspSet :: "'t GdbServerImpl \<Rightarrow> 't GdbServerImpl" where
  "rspSet s = reply [] s"

definition rspVpkt :: "'t GdbServerImpl \<Rightarrow> 't GdbServerImpl" where
  "rspVpkt s = reply [] s"

subsection \<open>rspClientRequest\<close>

definition rspClientRequest ::
  "Helpers \<Rightarrow> 't ITarget \<Rightarrow> 't GdbServerImpl \<Rightarrow> (error + 't GdbServerImpl) option"
where
  "rspClientRequest H T s0 =
     (case getPkt s0 of
        (False, s) \<Rightarrow> Some (Inr (rspClose s))
      | (True, s) \<Rightarrow>
          (let c = peek (pkt_data s) 0 in
           if c = CHR ''!'' then Some (Inr (reply ''OK'' s))
           else if c = CHR ''?'' then Some (Inr (rspReportException TargetSignal_TRAP s))
           else if c = CHR ''A'' then Some (Inr (reply ''E01'' s))
           else if c = CHR ''b'' then Some (Inr s)
           else if c = CHR ''B'' then Some (Inr s)
           else if c = CHR ''F'' then rspSyscallReply H T s
           else if c = CHR ''c'' \<or> c = CHR ''C'' then rspContinue T s
           else if c = CHR ''d'' then Some (Inr s)
           else if c = CHR ''D'' then Some (Inr (rspClose (reply ''OK'' s)))
           else if c = CHR ''g'' then Some (rspReadAllRegs H T s)
           else if c = CHR ''G'' then Some (Inr (rspWriteAllRegs H T s))
           else if c = CHR ''H'' then Some (Inr (reply ''OK'' s))
           else if c = CHR ''i'' then Some (Inr (rspReportException TargetSignal_TRAP s))
           else if c = CHR ''I'' then Some (Inr (rspReportException TargetSignal_TRAP s))
           else if c = CHR ''k'' then
             Some (Inr (case killBehaviour s of
                          EXIT_ON_KILL \<Rightarrow> s\<lparr>mExitServer := True\<rparr>
                        | RESET_ON_KILL \<Rightarrow> s))
           else if c = CHR ''m'' then Some (Inr (rspReadMem T s))
           else if c = CHR ''M'' then Some (rspWriteMem H T s)
           else if c = CHR ''p'' then Some (Inr (rspReadReg H T s))
           else if c = CHR ''P'' then Some (rspWriteReg H T s)
           else if c = CHR ''q'' then Some (rspQuery H T s)
           else if c = CHR ''Q'' then Some (Inr (rspSet s))
           else if c = CHR ''r'' then Some (Inr s)
           else if c = CHR ''R'' then Some (Inr s)
           else if c = CHR ''s'' \<or> c = CHR ''S'' then rspSingleStep T s
           else if c = CHR ''t'' then Some (Inr s)
           else if c = CHR ''T'' then Some (Inr (reply ''OK'' s))
           else if c = CHR ''v'' then Some (Inr (rspVpkt s))
           else if c = CHR ''X'' then Some (rspWriteMemBin H T s)
           else if c = CHR ''z'' then Some (Inr (rspRemoveMatchpoint s))
           else if c = CHR ''Z'' then Some (Inr (rspInsertMatchpoint s))
           else Some (Inr s)))"

subsection \<open>The constructor\<close>

text \<open>
  The constructor sets no timeout, no exit request and no pending continuation. The new
  packet buffer has \<open>bufSize\<close> bytes (they are indeterminate in C++ and NUL here), and
  nothing has been sent or asked of the target yet.
\<close>

definition GdbServerImpl_new ::
  "'t \<Rightarrow> (string \<times> bool) list \<Rightarrow> KillBehaviour \<Rightarrow> nat \<Rightarrow> string list \<Rightarrow> (nat \<Rightarrow> bool)
     \<Rightarrow> (nat \<Rightarrow> real) \<Rightarrow> 't GdbServerImpl"
where
  "GdbServerImpl_new c fl kb bufSize inbox breaks clk =
     \<lparr>cpu = c, tlog = [], traceFlags = fl,
      pkt_data = replicate bufSize NUL, pkt_len = 0, pkt_bufSize = bufSize,
      rsp_connected = True, rsp_inbox = inbox, rsp_outbox = [],
      rsp_breaks = breaks, rsp_polls = 0, clock = clk, clock_reads = 0,
      mTimeout = 0, killBehaviour = kb, mExitServer = False,
      mSyscallContinuation = SYSCALL_NONE_PENDING, mpHash = Map.empty, cout = []\<rparr>"

subsection \<open>A target and helpers to run the server on\<close>

text \<open>
  A target in the manner of the wrapper at the end of the source file: every register
  is four bytes wide, \<open>read\<close> and \<open>write\<close> go byte by byte through the memory and
  never fail, \<open>command\<close> accepts nothing, \<open>reset\<close> succeeds and a \<open>STOP\<close> resume does
  nothing. The results of the other resumes are scripted: \<open>sim_script\<close> lists them,
  and \<open>TIMEOUT\<close> follows when the script is used up.
\<close>

record sim =
  sim_regs :: "int \<Rightarrow> 32 word"
  sim_mem :: "32 word \<Rightarrow> 8 word"
  sim_script :: "ResumeRes list"

fun sim_store :: "32 word \<Rightarrow> 8 word list \<Rightarrow> (32 word \<Rightarrow> 8 word) \<Rightarrow> (32 word \<Rightarrow> 8 word)" where
  "sim_store addr [] m = m"
| "sim_store addr (b # bs) m = sim_store (addr + 1) bs (m(addr := b))"

definition simTarget :: "sim ITarget" where
  "simTarget =
     \<lparr>resume = (\<lambda>ty tmo c.
         case ty of
           STOP \<Rightarrow> (ResumeRes_NONE, c)
         | _ \<Rightarrow> (case sim_script c of
                   [] \<Rightarrow> (TIMEOUT, c)
                 | r # rs \<Rightarrow> (r, c\<lparr>sim_script := rs\<rparr>))),
      reset = (\<lambda>ty c. (SUCCESS, c)),
      getCycleCount = (\<lambda>c. 0),
      getInstrCount = (\<lambda>c. 0),
      readRegister = (\<lambda>reg c. (4, sim_regs c reg)),
      writeRegister = (\<lambda>reg v c. (4, c\<lparr>sim_regs := (sim_regs c)(reg := v)\<rparr>)),
      target_read = (\<lambda>addr n c. map (\<lambda>i. sim_mem c (addr + of_nat i)) [0..<n]),
      target_write = (\<lambda>addr bs c. (length bs, c\<lparr>sim_mem := sim_store addr bs (sim_mem c)\<rparr>)),
      command = (\<lambda>cmd c. (False, [], c))\<rparr>"

text \<open>
  Modelled from the spec: the codec helpers (Utils.cpp), the monitor packers
  (RspPacket.cpp) and the parser of \<^verbatim>\<open>F<retcode>[,<errno>][;C]\<close>
  (SyscallReplyPacket.cpp), in one possible reading: hex digits of either case are
  accepted and lowercase ones produced, values are little-endian, \<^verbatim>\<open>}x\<close> unescapes
  to \<open>x XOR 0x20\<close>, a monitor output packet is \<^verbatim>\<open>O\<close> followed by the hex-encoded
  text.
\<close>

definition hexByte :: "nat \<Rightarrow> string" where
  "hexByte b = [hex2Char (b div 16 mod 16), hex2Char (b mod 16)]"

definition nibble :: "char \<Rightarrow> nat" where
  "nibble c = (case xval c of None \<Rightarrow> 255 | Some v \<Rightarrow> v)"

fun unhex :: "string \<Rightarrow> nat list" where
  "unhex (a # b # r) = ((nibble a * 16 + nibble b) mod 256) # unhex r"
| "unhex _ = []"

fun unescape :: "string \<Rightarrow> string" where
  "unescape (a # b # r) =
     (if a = CHR ''}'' then char_of ((of_char b :: nat) XOR 32) # unescape r
      else a # unescape (b # r))"
| "unescape r = r"

fun words :: "string \<Rightarrow> string \<Rightarrow> string list" where
  "words cur [] = (if cur = [] then [] else [cur])"
| "words cur (c # cs) =
     (if c = CHR '' '' then (if cur = [] then words [] cs else cur # words [] cs)
      else words (cur @ [c]) cs)"

definition scan_hexnum :: "string \<Rightarrow> (32 word \<times> string) option" where
  "scan_hexnum s =
     (let neg = (case s of [] \<Rightarrow> False | c # _ \<Rightarrow> c = CHR ''-'');
          s1 = (if neg then drop 1 s else s);
          ds = takeWhile (\<lambda>c. xval c \<noteq> None) s1
      in if ds = [] then None
         else Some (if neg then - of_nat (digits_value 16 ds) else of_nat (digits_value 16 ds),
                    drop (length ds) s1))"

definition parseSyscallReply :: "string \<Rightarrow> SyscallReplyPacket" where
  "parseSyscallReply s =
     (let invalid = \<lparr>valid = False, retcode = 0, hasCtrlC = False\<rparr> in
      case scan_lit CHR ''F'' s of
        None \<Rightarrow> invalid
      | Some r \<Rightarrow>
          (case scan_hexnum r of
             None \<Rightarrow> invalid
           | Some (rc, r1) \<Rightarrow>
               (case (case scan_lit CHR '','' r1 of
                        None \<Rightarrow> Some r1
                      | Some r2 \<Rightarrow> map_option snd (scan_hexnum r2)) of
                  None \<Rightarrow> invalid
                | Some r3 \<Rightarrow>
                    if r3 = [] then \<lparr>valid = True, retcode = rc, hasCtrlC = False\<rparr>
                    else if r3 = '';C'' then \<lparr>valid = True, retcode = rc, hasCtrlC = True\<rparr>
                    else invalid)))"

definition simHelpers :: Helpers where
  "simHelpers =
     \<lparr>char2Hex = (\<lambda>c. of_nat (nibble c)),
      val2Hex = (\<lambda>v n le.
         concat (map (\<lambda>i. hexByte (unat (drop_bit (8 * i) v) mod 256))
                     (if le then [0..<n] else rev [0..<n])) @ [NUL]),
      hex2Val = (\<lambda>buf n le.
         of_nat (foldr (\<lambda>b a. b + 256 * a)
                   (if le then unhex (take (2 * n) buf) else rev (unhex (take (2 * n) buf))) 0)),
      hex2Ascii = (\<lambda>src. map char_of (unhex src) @ [NUL]),
      rspUnescape = unescape,
      split = (\<lambda>str delim. words [] str),
      parse = parseSyscallReply,
      packRcmdStr = (\<lambda>str isStdout. CHR ''O'' # concat (map (\<lambda>c. hexByte (of_char c)) str)),
      packHexstr = (\<lambda>str. concat (map (\<lambda>c. hexByte (of_char c)) str)),
      put_time = (\<lambda>t. ''1970-01-01 00:00:00''),
      traceRsp = (\<lambda>fl. flag fl ''rsp'')\<rparr>"

text \<open>A fresh memory and register file, and a server in front of them.\<close>

definition sim0 :: sim where
  "sim0 = \<lparr>sim_regs = (\<lambda>r. 0), sim_mem = (\<lambda>a. 0), sim_script = []\<rparr>"

definition server0 :: "string list \<Rightarrow> sim GdbServerImpl" where
  "server0 inbox =
     GdbServerImpl_new sim0 [(''rsp'', False), (''break'', False)] EXIT_ON_KILL 64 inbox
       (\<lambda>n. False) (\<lambda>n. real n)"

subsection \<open>Vocabulary of the statements\<close>

text \<open>The stop-reply packet \<^verbatim>\<open>rspReportException\<close> builds for a signal.\<close>

definition stopReply :: "TargetSignal \<Rightarrow> string" where
  "stopReply sig =
     [CHR ''S'', hex2Char (TargetSignal_int sig div 16), hex2Char (TargetSignal_int sig mod 16)]"

text \<open>Register writes among the calls made on the target.\<close>

fun is_WriteRegister :: "tcall \<Rightarrow> bool" where
  "is_WriteRegister (WriteRegister r v) = True"
| "is_WriteRegister _ = False"

text \<open>
  What a continue, a step or a syscall request does when it returns \<open>r\<close> from the
  state \<open>s\<close>: the process has exited, or exactly one packet has been sent, which is
  not the timeout report when no user timeout is set, no register has been written and
  the user timeout is unchanged.
\<close>

definition continue_effect :: "'t GdbServerImpl \<Rightarrow> error + 't GdbServerImpl \<Rightarrow> bool" where
  "continue_effect s r \<longleftrightarrow>
     r = Inl EXIT_FAILURE \<or>
     (\<exists>s' p l. r = Inr s' \<and> rsp_outbox s' = rsp_outbox s @ [p]
        \<and> (mTimeout s = 0 \<longrightarrow> p \<noteq> ''S18'')
        \<and> tlog s' = tlog s @ l \<and> (\<forall>e\<in>set l. \<not> is_WriteRegister e)
        \<and> mTimeout s' = mTimeout s)"

text \<open>
  The byte \<^verbatim>\<open>rspWriteMem\<close> decodes from the two characters at index \<open>i\<close> of
  the buffer.
\<close>

definition hexPair :: "Helpers \<Rightarrow> string \<Rightarrow> nat \<Rightarrow> 8 word" where
  "hexPair H buf i = push_bit 4 (char2Hex H (peek buf i)) OR char2Hex H (peek buf (i + 1))"

text \<open>
  The outcome \<open>r\<close> of handling a request from the state \<open>s\<close>: the server went on
  and sent exactly one packet, or went on and sent none.
\<close>

definition sends_one :: "'t GdbServerImpl \<Rightarrow> error + 't GdbServerImpl \<Rightarrow> bool" where
  "sends_one s r \<longleftrightarrow> (\<exists>s' pk. r = Inr s' \<and> rsp_outbox s' = rsp_outbox s @ [pk])"

definition sends_none :: "'t GdbServerImpl \<Rightarrow> error + 't GdbServerImpl \<Rightarrow> bool" where
  "sends_none s r \<longleftrightarrow> (\<exists>s'. r = Inr s' \<and> rsp_outbox s' = rsp_outbox s)"

text \<open>The first byte of a payload (the terminator when the payload is empty).\<close>

definition first_byte :: "string \<Rightarrow> char" where
  "first_byte p = (case p of [] \<Rightarrow> NUL | c # _ \<Rightarrow> c)"

section \<open>Properties\<close>

subsection \<open>Packets and formatting\<close>


lemma poke0: "poke 0 cs buf = cs @ drop (length cs) buf"
  by (simp add: poke_def)

lemma cstr_append_NUL: "NUL \<notin> set str \<Longrightarrow> cstr (str @ NUL # rest) = str"
  by (induction str) (auto simp: cstr_def)

lemma NUL_notin_xdigits: "NUL \<notin> set ''0123456789abcdef''"
  by simp

lemma xdigit_in: "d < 16 \<Longrightarrow> xdigit d \<in> set ''0123456789abcdef''"
  unfolding xdigit_def by (rule nth_mem) simp

lemma printf_x_chars: "set (printf_x n) \<subseteq> set ''0123456789abcdef''"
proof (induction n rule: printf_x.induct)
  case (1 n)
  show ?case
  proof (cases "n < 16")
    case True
    then show ?thesis using xdigit_in [of n] by (subst printf_x.simps) simp
  next
    case False
    have "n mod 16 < 16" by simp
    then have "xdigit (n mod 16) \<in> set ''0123456789abcdef''" by (rule xdigit_in)
    with False 1 show ?thesis by (subst printf_x.simps) simp
  qed
qed

lemma printf_x_no_NUL: "NUL \<notin> set (printf_x n)"
  using printf_x_chars [of n] NUL_notin_xdigits by blast

lemma sendf_eq:
  "NUL \<notin> set str \<Longrightarrow>
   sendf str s =
     s\<lparr>pkt_data := str @ NUL # drop (Suc (length str)) (pkt_data s),
       pkt_len := length str,
       rsp_outbox := rsp_outbox s @ [str]\<rparr>"
  by (simp add: sendf_def putPkt_def setLen_strlen_def sprintf_pkt_def poke0 cstr_append_NUL)

lemma stopReply_simps:
  "stopReply TargetSignal_NONE = ''S00''"
  "stopReply TargetSignal_INT = ''S02''"
  "stopReply TargetSignal_TRAP = ''S05''"
  "stopReply TargetSignal_XCPU = ''S18''"
  "stopReply TargetSignal_UNKNOWN = ''S8f''"
  by (simp_all add: stopReply_def hex2Char_def)

lemma stopReply_no_NUL: "NUL \<notin> set (stopReply sig)"
  by (cases sig) (simp_all add: stopReply_simps)

lemma rspReportException_eq:
  "rspReportException sig s =
     s\<lparr>pkt_data := stopReply sig @ NUL # drop 4 (pkt_data s),
       pkt_len := 3,
       rsp_outbox := rsp_outbox s @ [stopReply sig]\<rparr>"
proof -
  have d4: "Suc (Suc (Suc (Suc 0))) = (4::nat)" by simp
  have p: "poke 0 [CHR ''S'', hex2Char (TargetSignal_int sig div 16),
                   hex2Char (TargetSignal_int sig mod 16), NUL] (pkt_data s)
           = stopReply sig @ NUL # drop 4 (pkt_data s)"
    by (simp add: poke0 stopReply_def d4)
  have l: "length (stopReply sig) = 3" by (simp add: stopReply_def)
  show ?thesis
    unfolding rspReportException_def p
    by (simp add: putPkt_def setLen_strlen_def cstr_append_NUL [OF stopReply_no_NUL] l)
qed

lemma packStr_putPkt_eq:
  "putPkt (packStr str s) =
     s\<lparr>pkt_data := str @ NUL # drop (Suc (length str)) (pkt_data s),
       pkt_len := length str,
       rsp_outbox := rsp_outbox s @ [str]\<rparr>"
  by (simp add: putPkt_def packStr_def poke0)


lemma stringLength_loop_counts:
  assumes "\<forall>i<n. \<exists>b. target_read T (addr + count + of_nat i) 1 (cpu s) = [b] \<and> b \<noteq> 0"
    and "target_read T (addr + count + of_nat n) 1 (cpu s) = [0]"
  shows "stringLength_loop T addr count s =
           Some (count + of_nat n + 1,
                 s\<lparr>tlog := tlog s @ map (\<lambda>i. Read (addr + count + of_nat i) 1) [0..<Suc n]\<rparr>)"
  using assms
proof (induction n arbitrary: count s)
  case 0
  then show ?case
    by (subst stringLength_loop.simps) (simp add: cpu_read_def)
next
  case (Suc m)
  let ?s1 = "s\<lparr>tlog := tlog s @ [Read (addr + count) 1]\<rparr>"
  from Suc.prems(1) [rule_format, of 0]
  obtain b where b: "target_read T (addr + count) 1 (cpu s) = [b]" "b \<noteq> 0"
    by auto
  have h1: "\<forall>i<m. \<exists>b. target_read T (addr + (count + 1) + of_nat i) 1 (cpu ?s1) = [b] \<and> b \<noteq> 0"
  proof (intro allI impI)
    fix i assume "i < m"
    then have "Suc i < Suc m" by simp
    from Suc.prems(1) [rule_format, OF this]
    show "\<exists>b. target_read T (addr + (count + 1) + of_nat i) 1 (cpu ?s1) = [b] \<and> b \<noteq> 0"
      by (simp add: add.assoc add.commute add.left_commute)
  qed
  have h2: "target_read T (addr + (count + 1) + of_nat m) 1 (cpu ?s1) = [0]"
    using Suc.prems(2) by (simp add: add.assoc add.commute add.left_commute)
  have m: "map (\<lambda>i. Read (addr + count + of_nat i) 1) [0..<Suc (Suc m)] =
           Read (addr + count) 1 # map (\<lambda>i. Read (addr + (count + 1) + of_nat i) 1) [0..<Suc m]"
  proof -
    have u: "[0..<Suc (Suc m)] = 0 # map Suc [0..<Suc m]"
      by (subst map_Suc_upt) (simp add: upt_conv_Cons del: upt_Suc)
    show ?thesis
      unfolding u by (simp add: comp_def add.assoc add.commute add.left_commute del: upt_Suc)
  qed
  have "stringLength_loop T addr count s = stringLength_loop T addr (count + 1) ?s1"
    using b by (subst stringLength_loop.simps) (simp add: cpu_read_def)
  also have "\<dots> = Some (count + 1 + of_nat m + 1,
                 ?s1\<lparr>tlog := tlog ?s1 @ map (\<lambda>i. Read (addr + (count + 1) + of_nat i) 1) [0..<Suc m]\<rparr>)"
    by (rule Suc.IH [OF h1 h2])
  finally show ?case
    unfolding m by (simp add: add.assoc add.commute add.left_commute)
qed


lemma stringLength_loop_effect:
  assumes "stringLength_loop T addr count s = Some r"
  shows "\<exists>l. snd r = s\<lparr>tlog := tlog s @ l\<rparr> \<and> (\<forall>e\<in>set l. \<not> is_WriteRegister e)"
proof (rule stringLength_loop.raw_induct
    [where P = "\<lambda>T addr count s r.
        \<exists>l. snd r = s\<lparr>tlog := tlog s @ l\<rparr> \<and> (\<forall>e\<in>set l. \<not> is_WriteRegister e)",
     OF _ assms])
  fix loop :: "'a ITarget \<Rightarrow> 32 word \<Rightarrow> 32 word \<Rightarrow> 'a GdbServerImpl
                 \<Rightarrow> (32 word \<times> 'a GdbServerImpl) option"
    and T addr count s r
  assume IH: "\<And>T addr count s r. loop T addr count s = Some r \<Longrightarrow>
      \<exists>l. snd r = s\<lparr>tlog := tlog s @ l\<rparr> \<and> (\<forall>e\<in>set l. \<not> is_WriteRegister e)"
    and body: "(case cpu_read T (addr + count) 1 s of
        (bs, s1) \<Rightarrow>
          (case bs of
             [ch] \<Rightarrow>
               if ch = 0 then Some (count + 1, s1)
               else loop T addr (count + 1) s1
           | _ \<Rightarrow> Some (count, s1))) = Some r"
  let ?s1 = "s\<lparr>tlog := tlog s @ [Read (addr + count) 1]\<rparr>"
  show "\<exists>l. snd r = s\<lparr>tlog := tlog s @ l\<rparr> \<and> (\<forall>e\<in>set l. \<not> is_WriteRegister e)"
  proof (cases "\<exists>ch. target_read T (addr + count) 1 (cpu s) = [ch] \<and> ch \<noteq> 0")
    case True
    then obtain ch where ch: "target_read T (addr + count) 1 (cpu s) = [ch]" "ch \<noteq> 0" by blast
    with body have "loop T addr (count + 1) ?s1 = Some r"
      by (simp add: cpu_read_def)
    from IH [OF this] obtain l where
      l: "snd r = ?s1\<lparr>tlog := tlog ?s1 @ l\<rparr>" "\<forall>e\<in>set l. \<not> is_WriteRegister e"
      by blast
    have "snd r = s\<lparr>tlog := tlog s @ (Read (addr + count) 1 # l)\<rparr>"
      using l(1) by simp
    moreover have "\<forall>e\<in>set (Read (addr + count) 1 # l). \<not> is_WriteRegister e"
      using l(2) by simp
    ultimately show ?thesis by blast
  next
    case False
    with body have "snd r = s\<lparr>tlog := tlog s @ [Read (addr + count) 1]\<rparr>"
      by (auto simp: cpu_read_def split: list.splits if_splits)
    moreover have "\<forall>e\<in>set [Read (addr + count) 1]. \<not> is_WriteRegister e" by simp
    ultimately show ?thesis by blast
  qed
qed


lemma syscall_args_eq:
  "syscall_args T s =
     ((snd (readRegister T 10 (cpu s)), snd (readRegister T 11 (cpu s)),
       snd (readRegister T 12 (cpu s)), snd (readRegister T 13 (cpu s)),
       snd (readRegister T 17 (cpu s))),
      s\<lparr>tlog := tlog s @ [ReadRegister 10, ReadRegister 11, ReadRegister 12, ReadRegister 13,
                         ReadRegister 17]\<rparr>)"
  by (simp add: syscall_args_def cpu_readRegister_def)

lemma PRIxREG_no_NUL: "NUL \<notin> set (PRIxREG v)"
  by (simp add: PRIxREG_def printf_x_no_NUL)

lemma sendf_effect:
  assumes "NUL \<notin> set str"
  shows "rsp_outbox (sendf str s) = rsp_outbox s @ [str]"
    and "tlog (sendf str s) = tlog s"
    and "cpu (sendf str s) = cpu s"
    and "mTimeout (sendf str s) = mTimeout s"
    and "mSyscallContinuation (sendf str s) = mSyscallContinuation s"
  by (simp_all add: sendf_eq [OF assms])

lemma rspSyscallRequest_effect:
  assumes "rspSyscallRequest T ct s = Some r"
  shows "\<exists>s' p l. r = Inr s' \<and> rsp_outbox s' = rsp_outbox s @ [p] \<and> p \<noteq> ''S18''
           \<and> tlog s' = tlog s @ l \<and> (\<forall>e\<in>set l. \<not> is_WriteRegister e)
           \<and> mTimeout s' = mTimeout s \<and> cpu s' = cpu s"
proof -
  define Q where "Q r \<longleftrightarrow> (\<exists>s' p l. r = Inr s' \<and> rsp_outbox s' = rsp_outbox s @ [p] \<and> p \<noteq> ''S18''
           \<and> tlog s' = tlog s @ l \<and> (\<forall>e\<in>set l. \<not> is_WriteRegister e)
           \<and> mTimeout s' = mTimeout s \<and> cpu s' = cpu s)" for r :: "error + 'a GdbServerImpl"
  let ?l5 = "[ReadRegister 10, ReadRegister 11, ReadRegister 12, ReadRegister 13,
              ReadRegister 17]"
  let ?s5 = "s\<lparr>mSyscallContinuation := ct, tlog := tlog s @ ?l5\<rparr>"
  let ?a7 = "snd (readRegister T 17 (cpu s))"
  have plain: "Q (Inr (sendf str s5))"
    if "NUL \<notin> set str" "str \<noteq> ''S18''" "rsp_outbox s5 = rsp_outbox s"
       "tlog s5 = tlog s @ l" "\<forall>e\<in>set l. \<not> is_WriteRegister e"
       "mTimeout s5 = mTimeout s" "cpu s5 = cpu s"
    for str l and s5 :: "'a GdbServerImpl"
    unfolding Q_def
    using that sendf_effect [OF that(1), of s5]
    by (intro exI [of _ "sendf str s5"] exI [of _ str] exI [of _ l]) simp
  have plain5: "Q (Inr (sendf str s5))"
    if "NUL \<notin> set str" "str \<noteq> ''S18''" "s5 = ?s5 \<or> s5 = ?s5\<lparr>mSyscallContinuation := SYSCALL_NONE_PENDING\<rparr>"
    for str and s5 :: "'a GdbServerImpl"
    using that(3) by (intro plain [OF that(1,2), where l = ?l5]) auto
  have path: "Q r"
    if c: "(case stringLength T a0 ?s5 of None \<Rightarrow> None
            | Some (n, s6) \<Rightarrow> Some (Inr (sendf (f n) s6))) = Some r"
      and f: "\<And>n. NUL \<notin> set (f n)" "\<And>n. f n \<noteq> ''S18''"
    for a0 f
  proof -
    from c obtain n s6 where sl: "stringLength T a0 ?s5 = Some (n, s6)"
      and r: "r = Inr (sendf (f n) s6)"
      by (auto split: option.splits)
    from stringLength_loop_effect [OF sl [unfolded stringLength_def]]
    obtain l where l: "s6 = ?s5\<lparr>tlog := tlog ?s5 @ l\<rparr>" "\<forall>e\<in>set l. \<not> is_WriteRegister e"
      by auto
    have 1: "tlog s6 = tlog s @ (?l5 @ l)" using l(1) by simp
    have 2: "\<forall>e\<in>set (?l5 @ l). \<not> is_WriteRegister e" using l(2) by simp
    have 3: "rsp_outbox s6 = rsp_outbox s" "mTimeout s6 = mTimeout s" "cpu s6 = cpu s"
      using l(1) by simp_all
    show ?thesis
      unfolding r by (rule plain [OF f(1) f(2) 3(1) 1 2 3(2) 3(3)])
  qed
  have trap: "Q (Inr (rspReportException TargetSignal_TRAP ?s5))"
    unfolding Q_def
    by (intro exI [of _ "rspReportException TargetSignal_TRAP ?s5"] exI [of _ "''S05''"]
          exI [of _ ?l5])
       (simp add: rspReportException_eq stopReply_simps)
  note simps = rspSyscallRequest_def syscall_args_eq PRIxREG_no_NUL
  consider "?a7 = 57" | "?a7 = 62" | "?a7 = 63" | "?a7 = 64" | "?a7 = 80" | "?a7 = 93"
    | "?a7 = 169" | "?a7 = 1024" | "?a7 = 1026" | "?a7 = 1038"
    | "?a7 \<notin> {57, 62, 63, 64, 80, 93, 169, 1024, 1026, 1038}"
    by blast
  then have "Q r"
  proof cases
    case 1
    with assms have "r = Inr (sendf (''Fclose,'' @ PRIxREG (snd (readRegister T 10 (cpu s)))) ?s5)"
      by (simp add: simps)
    then show ?thesis by (simp add: plain5 simps)
  next
    case 2
    with assms have "r = Inr (sendf (''Flseek,'' @ PRIxREG (snd (readRegister T 10 (cpu s))) @ '',''
        @ PRIxREG (snd (readRegister T 11 (cpu s))) @ '','' @ PRIxREG (snd (readRegister T 12 (cpu s)))) ?s5)"
      by (simp add: simps)
    then show ?thesis by (simp add: plain5 simps)
  next
    case 3
    with assms have "r = Inr (sendf (''Fread,'' @ PRIxREG (snd (readRegister T 10 (cpu s))) @ '',''
        @ PRIxREG (snd (readRegister T 11 (cpu s))) @ '','' @ PRIxREG (snd (readRegister T 12 (cpu s)))) ?s5)"
      by (simp add: simps)
    then show ?thesis by (simp add: plain5 simps)
  next
    case 4
    with assms have "r = Inr (sendf (''Fwrite,'' @ PRIxREG (snd (readRegister T 10 (cpu s))) @ '',''
        @ PRIxREG (snd (readRegister T 11 (cpu s))) @ '','' @ PRIxREG (snd (readRegister T 12 (cpu s)))) ?s5)"
      by (simp add: simps)
    then show ?thesis by (simp add: plain5 simps)
  next
    case 5
    with assms have "r = Inr (sendf (''Ffstat,'' @ PRIxREG (snd (readRegister T 10 (cpu s))) @ '',''
        @ PRIxREG (snd (readRegister T 11 (cpu s)))) ?s5)"
      by (simp add: simps)
    then show ?thesis by (simp add: plain5 simps)
  next
    case 6
    with assms have "r = Inr (sendf (''W'' @ PRIxREG (snd (readRegister T 10 (cpu s))))
        (?s5\<lparr>mSyscallContinuation := SYSCALL_NONE_PENDING\<rparr>))"
      by (simp add: simps)
    then show ?thesis by (simp add: plain5 simps)
  next
    case 7
    with assms have "r = Inr (sendf (''Fgettimeofday,'' @ PRIxREG (snd (readRegister T 10 (cpu s))) @ '',''
        @ PRIxREG (snd (readRegister T 11 (cpu s)))) ?s5)"
      by (simp add: simps)
    then show ?thesis by (simp add: plain5 simps)
  next
    case 8
    with assms show ?thesis
      by (intro path [where f = "\<lambda>n. ''Fopen,'' @ PRIxREG (snd (readRegister T 10 (cpu s))) @ ''/'' @ PRIxREG n @ '','' @ PRIxREG (snd (readRegister T 11 (cpu s))) @ '','' @ PRIxREG (snd (readRegister T 12 (cpu s)))"])
         (simp_all add: simps)
  next
    case 9
    with assms show ?thesis
      by (intro path [where f = "\<lambda>n. ''Funlink,'' @ PRIxREG (snd (readRegister T 10 (cpu s))) @ ''/'' @ PRIxREG n"])
         (simp_all add: simps)
  next
    case 10
    with assms show ?thesis
      by (intro path [where f = "\<lambda>n. ''Fstat,'' @ PRIxREG (snd (readRegister T 10 (cpu s))) @ ''/'' @ PRIxREG n @ '','' @ PRIxREG (snd (readRegister T 11 (cpu s)))"])
         (simp_all add: simps)
  next
    case 11
    with assms have "r = Inr (rspReportException TargetSignal_TRAP ?s5)"
      by (simp add: simps)
    then show ?thesis using trap by simp
  qed
  then show ?thesis unfolding Q_def .
qed


lemma continue_effect_prefix:
  assumes "continue_effect s1 r" "rsp_outbox s1 = rsp_outbox s" "mTimeout s1 = mTimeout s"
    "tlog s1 = tlog s @ l1" "\<forall>e\<in>set l1. \<not> is_WriteRegister e"
  shows "continue_effect s r"
proof (cases "r = Inl EXIT_FAILURE")
  case True
  then show ?thesis by (simp add: continue_effect_def)
next
  case False
  with assms(1) obtain s' p l where h: "r = Inr s'" "rsp_outbox s' = rsp_outbox s1 @ [p]"
    "mTimeout s1 = 0 \<longrightarrow> p \<noteq> ''S18''" "tlog s' = tlog s1 @ l"
    "\<forall>e\<in>set l. \<not> is_WriteRegister e" "mTimeout s' = mTimeout s1"
    unfolding continue_effect_def by blast
  have 1: "rsp_outbox s' = rsp_outbox s @ [p]" using h(2) assms(2) by simp
  have 2: "mTimeout s = 0 \<longrightarrow> p \<noteq> ''S18''" using h(3) assms(3) by simp
  have 3: "tlog s' = tlog s @ (l1 @ l)" using h(4) assms(4) by simp
  have 4: "\<forall>e\<in>set (l1 @ l). \<not> is_WriteRegister e" using h(5) assms(5) by auto
  have 5: "mTimeout s' = mTimeout s" using h(6) assms(3) by simp
  show ?thesis unfolding continue_effect_def using h(1) 1 2 3 4 5 by blast
qed

lemma continue_effect_report:
  assumes "rsp_outbox s1 = rsp_outbox s" "mTimeout s1 = mTimeout s"
    "tlog s1 = tlog s @ l1" "\<forall>e\<in>set l1. \<not> is_WriteRegister e"
    "mTimeout s = 0 \<longrightarrow> sig \<noteq> TargetSignal_XCPU"
  shows "continue_effect s (Inr (rspReportException sig s1))"
proof -
  have 1: "rsp_outbox (rspReportException sig s1) = rsp_outbox s @ [stopReply sig]"
    by (simp add: rspReportException_eq assms(1))
  have 2: "mTimeout s = 0 \<longrightarrow> stopReply sig \<noteq> ''S18''"
    using assms(5) by (cases sig) (simp_all add: stopReply_simps)
  have 3: "tlog (rspReportException sig s1) = tlog s @ l1"
    by (simp add: rspReportException_eq assms(3))
  have 5: "mTimeout (rspReportException sig s1) = mTimeout s"
    by (simp add: rspReportException_eq assms(2))
  show ?thesis unfolding continue_effect_def using 1 2 3 assms(4) 5 by blast
qed

lemma continue_effect_syscall:
  assumes "rspSyscallRequest T ct s = Some r"
  shows "continue_effect s r"
  using rspSyscallRequest_effect [OF assms] unfolding continue_effect_def by blast

lemma cpu_resume_fields:
  "rsp_outbox (snd (cpu_resume T ty tmo s)) = rsp_outbox s"
  "mTimeout (snd (cpu_resume T ty tmo s)) = mTimeout s"
  "tlog (snd (cpu_resume T ty tmo s)) = tlog s @ [Resume ty tmo]"
  "rsp_breaks (snd (cpu_resume T ty tmo s)) = rsp_breaks s"
  "rsp_polls (snd (cpu_resume T ty tmo s)) = rsp_polls s"
  "clock (snd (cpu_resume T ty tmo s)) = clock s"
  "clock_reads (snd (cpu_resume T ty tmo s)) = clock_reads s"
  "mSyscallContinuation (snd (cpu_resume T ty tmo s)) = mSyscallContinuation s"
  "cpu (snd (cpu_resume T ty tmo s)) = snd (resume T ty tmo (cpu s))"
  "fst (cpu_resume T ty tmo s) = fst (resume T ty tmo (cpu s))"
  by (simp_all add: cpu_resume_def split: prod.splits)

lemma now_fields:
  "fst (now s) = clock s (clock_reads s)"
  "snd (now s) = s\<lparr>clock_reads := Suc (clock_reads s)\<rparr>"
  by (simp_all add: now_def)

lemma haveBreak_fields:
  "fst (haveBreak s) = rsp_breaks s (rsp_polls s)"
  "snd (haveBreak s) = s\<lparr>rsp_polls := Suc (rsp_polls s)\<rparr>"
  by (simp_all add: haveBreak_def)

lemma rspContinue_loop_effect:
  assumes "rspContinue_loop T te s = Some r"
  shows "continue_effect s r"
proof (rule rspContinue_loop.raw_induct [where P = "\<lambda>T te s r. continue_effect s r", OF _ assms])
  fix loop :: "'a ITarget \<Rightarrow> real \<Rightarrow> 'a GdbServerImpl \<Rightarrow> (error + 'a GdbServerImpl) option"
    and T te s r
  assume IH: "\<And>T te s r. loop T te s = Some r \<Longrightarrow> continue_effect s r"
    and body: "(case cpu_resume T CONTINUE (Some interruptTimeout) s of
        (resType, s1) \<Rightarrow>
          (case resType of
             SYSCALL \<Rightarrow> rspSyscallRequest T SYSCALL_THEN_FINISH_CONTINUE s1
           | STEPPED \<Rightarrow> Some (Inr (rspReportException TargetSignal_TRAP s1))
           | INTERRUPTED \<Rightarrow> Some (Inr (rspReportException TargetSignal_TRAP s1))
           | TIMEOUT \<Rightarrow>
               (case (if mTimeout s1 \<noteq> 0
                      then (case now s1 of (t, s2) \<Rightarrow> (te < t, s2))
                      else (False, s1)) of
                  (expired, s2) \<Rightarrow>
                    if expired then
                      Some (Inr (rspReportException TargetSignal_XCPU
                                   (snd (cpu_resume T STOP None s2))))
                    else
                      (case haveBreak s2 of
                         (brk, s3) \<Rightarrow>
                           if brk then
                             Some (Inr (rspReportException TargetSignal_INT
                                          (snd (cpu_resume T STOP None s3))))
                           else loop T te s3))
           | _ \<Rightarrow> Some (Inl EXIT_FAILURE))) = Some r"
  let ?res = "fst (resume T CONTINUE (Some interruptTimeout) (cpu s))"
  let ?s1 = "snd (cpu_resume T CONTINUE (Some interruptTimeout) s)"
  let ?l1 = "[Resume CONTINUE (Some interruptTimeout)]"
  have s1: "rsp_outbox ?s1 = rsp_outbox s" "mTimeout ?s1 = mTimeout s" "tlog ?s1 = tlog s @ ?l1"
    "\<forall>e\<in>set ?l1. \<not> is_WriteRegister e"
    by (simp_all add: cpu_resume_fields)
  have body': "(case ?res of
             SYSCALL \<Rightarrow> rspSyscallRequest T SYSCALL_THEN_FINISH_CONTINUE ?s1
           | STEPPED \<Rightarrow> Some (Inr (rspReportException TargetSignal_TRAP ?s1))
           | INTERRUPTED \<Rightarrow> Some (Inr (rspReportException TargetSignal_TRAP ?s1))
           | TIMEOUT \<Rightarrow>
               (case (if mTimeout ?s1 \<noteq> 0
                      then (case now ?s1 of (t, s2) \<Rightarrow> (te < t, s2))
                      else (False, ?s1)) of
                  (expired, s2) \<Rightarrow>
                    if expired then
                      Some (Inr (rspReportException TargetSignal_XCPU
                                   (snd (cpu_resume T STOP None s2))))
                    else
                      (case haveBreak s2 of
                         (brk, s3) \<Rightarrow>
                           if brk then
                             Some (Inr (rspReportException TargetSignal_INT
                                          (snd (cpu_resume T STOP None s3))))
                           else loop T te s3))
           | _ \<Rightarrow> Some (Inl EXIT_FAILURE)) = Some r"
    using body by (simp add: prod.case_eq_if cpu_resume_fields)
  show "continue_effect s r"
  proof (cases ?res)
    case SYSCALL
    with body' have "rspSyscallRequest T SYSCALL_THEN_FINISH_CONTINUE ?s1 = Some r" by simp
    from continue_effect_prefix [OF continue_effect_syscall [OF this] s1]
    show ?thesis .
  next
    case STEPPED
    with body' have "r = Inr (rspReportException TargetSignal_TRAP ?s1)" by simp
    then show ?thesis using continue_effect_report [OF s1, of TargetSignal_TRAP] by simp
  next
    case INTERRUPTED
    with body' have "r = Inr (rspReportException TargetSignal_TRAP ?s1)" by simp
    then show ?thesis using continue_effect_report [OF s1, of TargetSignal_TRAP] by simp
  next
    case TIMEOUT
    define s2 where "s2 = (if mTimeout s \<noteq> 0 then snd (now ?s1) else ?s1)"
    define expired where "expired \<longleftrightarrow> mTimeout s \<noteq> 0 \<and> te < clock s (clock_reads s)"
    have s2: "rsp_outbox s2 = rsp_outbox s" "mTimeout s2 = mTimeout s" "tlog s2 = tlog s @ ?l1"
      by (simp_all add: s2_def cpu_resume_fields now_fields)
    have b2: "(if expired then
                      Some (Inr (rspReportException TargetSignal_XCPU
                                   (snd (cpu_resume T STOP None s2))))
                    else
                      (case haveBreak s2 of
                         (brk, s3) \<Rightarrow>
                           if brk then
                             Some (Inr (rspReportException TargetSignal_INT
                                          (snd (cpu_resume T STOP None s3))))
                           else loop T te s3)) = Some r"
    proof -
      have e: "(if mTimeout ?s1 \<noteq> 0
                then (case now ?s1 of (t, s2) \<Rightarrow> (te < t, s2))
                else (False, ?s1)) = (expired, s2)"
        by (simp add: s2_def expired_def cpu_resume_fields now_fields prod.case_eq_if)
      from body' show ?thesis
        by (simp only: TIMEOUT ResumeRes.case e prod.case)
    qed
    show ?thesis
    proof (cases expired)
      case True
      with b2 have r: "r = Inr (rspReportException TargetSignal_XCPU
                                   (snd (cpu_resume T STOP None s2)))" by simp
      have "continue_effect s (Inr (rspReportException TargetSignal_XCPU
                                   (snd (cpu_resume T STOP None s2))))"
        using True
        by (intro continue_effect_report [where ?l1.0 = "?l1 @ [Resume STOP None]"])
           (simp_all add: cpu_resume_fields s2 expired_def)
      then show ?thesis using r by simp
    next
      case False
      let ?s3 = "snd (haveBreak s2)"
      have s3: "rsp_outbox ?s3 = rsp_outbox s" "mTimeout ?s3 = mTimeout s" "tlog ?s3 = tlog s @ ?l1"
        using s2 by (simp_all add: haveBreak_fields)
      show ?thesis
      proof (cases "fst (haveBreak s2)")
        case True
        with False b2 have r: "r = Inr (rspReportException TargetSignal_INT
                                          (snd (cpu_resume T STOP None ?s3)))"
          by (simp add: prod.case_eq_if)
        have "continue_effect s (Inr (rspReportException TargetSignal_INT
                                          (snd (cpu_resume T STOP None ?s3))))"
          by (intro continue_effect_report [where ?l1.0 = "?l1 @ [Resume STOP None]"])
             (simp_all add: cpu_resume_fields s3)
        then show ?thesis using r by simp
      next
        case nobrk: False
        with False b2 have "loop T te ?s3 = Some r"
          by (simp add: prod.case_eq_if)
        from continue_effect_prefix [OF IH [OF this] s3 s1(4)]
        show ?thesis .
      qed
    qed
  next
    case ResumeRes_NONE
    with body' show ?thesis by (simp add: continue_effect_def)
  next
    case SUCCESS
    with body' show ?thesis by (simp add: continue_effect_def)
  next
    case FAILURE
    with body' show ?thesis by (simp add: continue_effect_def)
  qed
qed

lemma rspContinue_effect:
  assumes "rspContinue T s = Some r"
  shows "continue_effect s r"
proof -
  let ?s0 = "snd (now s)"
  let ?s1 = "snd (haveBreak ?s0)"
  have s1: "rsp_outbox ?s1 = rsp_outbox s" "mTimeout ?s1 = mTimeout s" "tlog ?s1 = tlog s @ []"
    "\<forall>e\<in>set []. \<not> is_WriteRegister e"
    by (simp_all add: now_fields haveBreak_fields)
  show ?thesis
  proof (cases "fst (haveBreak ?s0)")
    case True
    with assms have r: "r = Inr (rspReportException TargetSignal_INT
                              (snd (cpu_resume T STOP None ?s1)))"
      by (simp add: rspContinue_def prod.case_eq_if Let_def)
    have "continue_effect s (Inr (rspReportException TargetSignal_INT
                              (snd (cpu_resume T STOP None ?s1))))"
      by (intro continue_effect_report [where ?l1.0 = "[Resume STOP None]"])
         (simp_all add: cpu_resume_fields s1)
    then show ?thesis using r by simp
  next
    case False
    with assms have "rspContinue_loop T (fst (now s) + mTimeout ?s0) ?s1 = Some r"
      by (simp add: rspContinue_def prod.case_eq_if Let_def)
    from continue_effect_prefix [OF rspContinue_loop_effect [OF this] s1]
    show ?thesis .
  qed
qed

subsection \<open>The exit syscall\<close>

lemma xval_xdigit_all: "list_all (\<lambda>d. xval (xdigit d) = Some d) [0..<16]"
  by code_simp

lemma xval_xdigit: "d < 16 \<Longrightarrow> xval (xdigit d) = Some d"
  using xval_xdigit_all by (simp add: list_all_iff)

lemma digits_value_snoc:
  "digits_value b (ds @ [c]) = b * digits_value b ds + the (xval c)"
  by (simp add: digits_value_def)

lemma digits_value_printf_x: "digits_value 16 (printf_x n) = n"
proof (induction n rule: printf_x.induct)
  case (1 n)
  show ?case
  proof (cases "n < 16")
    case True
    then show ?thesis
      by (subst printf_x.simps) (simp add: digits_value_def xval_xdigit)
  next
    case False
    have "xval (xdigit (n mod 16)) = Some (n mod 16)" by (rule xval_xdigit) simp
    with False 1 show ?thesis
      by (subst printf_x.simps) (simp add: digits_value_snoc)
  qed
qed

text \<open>
  C6. When the target reports SYSCALL and register a7 (17) holds 93, the server sends the
  packet \<open>W\<close> followed by register a0 (10) in lowercase hexadecimal and leaves no
  continuation pending; this packet is the only one sent, both from
  \<open>rspSyscallRequest\<close> itself and from the slice of a continue that reported the
  syscall.
\<close>

theorem exit_syscall_sends_W:
  "(snd (readRegister T 17 (cpu s)) = 93 \<longrightarrow>
      (\<exists>s'. rspSyscallRequest T cType s = Some (Inr s')
         \<and> rsp_outbox s' = rsp_outbox s @ [''W'' @ printf_x (unat (snd (readRegister T 10 (cpu s))))]
         \<and> mSyscallContinuation s' = SYSCALL_NONE_PENDING))
   \<and> (resume T CONTINUE (Some interruptTimeout) (cpu s) = (SYSCALL, c)
        \<and> snd (readRegister T 17 c) = 93 \<longrightarrow>
      (\<exists>s'. rspContinue_loop T timeout_end s = Some (Inr s')
         \<and> rsp_outbox s' = rsp_outbox s @ [''W'' @ printf_x (unat (snd (readRegister T 10 c)))]
         \<and> mSyscallContinuation s' = SYSCALL_NONE_PENDING))
   \<and> set (printf_x n) \<subseteq> set ''0123456789abcdef'' \<and> digits_value 16 (printf_x n) = n"
proof -
  have W: "\<exists>s'. rspSyscallRequest T cType s = Some (Inr s')
         \<and> rsp_outbox s' = rsp_outbox s @ [''W'' @ printf_x (unat (snd (readRegister T 10 (cpu s))))]
         \<and> mSyscallContinuation s' = SYSCALL_NONE_PENDING"
    if "snd (readRegister T 17 (cpu s)) = 93" for cType and s :: "'a GdbServerImpl"
    using that
    by (simp add: rspSyscallRequest_def syscall_args_eq sendf_eq PRIxREG_no_NUL)
       (simp add: PRIxREG_def)
  have C: "\<exists>s'. rspContinue_loop T timeout_end s = Some (Inr s')
         \<and> rsp_outbox s' = rsp_outbox s @ [''W'' @ printf_x (unat (snd (readRegister T 10 c)))]
         \<and> mSyscallContinuation s' = SYSCALL_NONE_PENDING"
    if r: "resume T CONTINUE (Some interruptTimeout) (cpu s) = (SYSCALL, c)"
      and a7: "snd (readRegister T 17 c) = 93"
  proof -
    let ?s1 = "s\<lparr>cpu := c, tlog := tlog s @ [Resume CONTINUE (Some interruptTimeout)]\<rparr>"
    have "rspContinue_loop T timeout_end s =
            rspSyscallRequest T SYSCALL_THEN_FINISH_CONTINUE ?s1"
      by (subst rspContinue_loop.simps) (simp add: cpu_resume_def r)
    moreover have "snd (readRegister T 17 (cpu ?s1)) = 93" using a7 by simp
    from W [OF this, of SYSCALL_THEN_FINISH_CONTINUE]
    have "\<exists>s'. rspSyscallRequest T SYSCALL_THEN_FINISH_CONTINUE ?s1 = Some (Inr s')
         \<and> rsp_outbox s' = rsp_outbox s @ [''W'' @ printf_x (unat (snd (readRegister T 10 c)))]
         \<and> mSyscallContinuation s' = SYSCALL_NONE_PENDING"
      by simp
    ultimately show ?thesis by simp
  qed
  show ?thesis
    using W C printf_x_chars digits_value_printf_x by blast
qed

theorem exit_syscall_sends_W_witness:
  "snd (readRegister simTarget 17
         (cpu ((server0 [])\<lparr>cpu := sim0\<lparr>sim_regs := (\<lambda>r. 0)(17 := 93, 10 := 31)\<rparr>\<rparr>))) = 93
   \<and> (\<exists>s'. rspSyscallRequest simTarget SYSCALL_THEN_FINISH_STEPPING
               ((server0 [])\<lparr>cpu := sim0\<lparr>sim_regs := (\<lambda>r. 0)(17 := 93, 10 := 31)\<rparr>\<rparr>)
             = Some (Inr s')
          \<and> rsp_outbox s' = [''W1f''] \<and> mSyscallContinuation s' = SYSCALL_NONE_PENDING)"
proof -
  let ?s = "(server0 [])\<lparr>cpu := sim0\<lparr>sim_regs := (\<lambda>r. 0)(17 := 93, 10 := 31)\<rparr>\<rparr>"
  have h: "snd (readRegister simTarget 17 (cpu ?s)) = 93"
    by (simp add: simTarget_def)
  have x: "printf_x (unat (snd (readRegister simTarget 10 (cpu ?s)))) = ''1f''"
    by (simp add: simTarget_def printf_x.simps xdigit_def)
  have o: "rsp_outbox ?s = []"
    by (simp add: server0_def GdbServerImpl_new_def)
  from exit_syscall_sends_W [of simTarget ?s SYSCALL_THEN_FINISH_STEPPING] h
  show ?thesis
    unfolding x o by simp
qed

subsection \<open>The length of a path argument\<close>

lemma stringLength_counts:
  assumes "\<forall>i<n. \<exists>b. target_read T (addr + of_nat i) 1 (cpu s) = [b] \<and> b \<noteq> 0"
    and "target_read T (addr + of_nat n) 1 (cpu s) = [0]"
  shows "stringLength T addr s =
           Some (of_nat (n + 1),
                 s\<lparr>tlog := tlog s @ map (\<lambda>i. Read (addr + of_nat i) 1) [0..<n + 1]\<rparr>)"
  using stringLength_loop_counts [of n T addr 0 s] assms
  by (simp add: stringLength_def)

text \<open>
  C9. For the syscalls that take a path (a7 = 1024, 1026, 1038), when the string at the
  address in a0 has \<open>n\<close> non-zero bytes followed by a NUL and every one-byte read
  delivers its byte, \<open>stringLength\<close> reads the bytes one at a time, first to last, and
  returns \<open>n + 1\<close>, and that number is the length field of the F request. This holds
  for every \<open>n\<close> the 32-bit counter can hold: no bound cuts the probe short.
\<close>

theorem path_syscall_length_counts_to_NUL:
  assumes "\<forall>i<n. \<exists>b. target_read T (a0 + of_nat i) 1 (cpu s) = [b] \<and> b \<noteq> 0"
    and "target_read T (a0 + of_nat n) 1 (cpu s) = [0]"
    and "n + 1 < 2 ^ 32"
    and "a0 = snd (readRegister T 10 (cpu s))"
    and "a1 = snd (readRegister T 11 (cpu s))"
    and "a2 = snd (readRegister T 12 (cpu s))"
    and "a7 = snd (readRegister T 17 (cpu s))"
  shows "stringLength T a0 s =
           Some (of_nat (n + 1),
                 s\<lparr>tlog := tlog s @ map (\<lambda>i. Read (a0 + of_nat i) 1) [0..<n + 1]\<rparr>)
     \<and> unat (of_nat (n + 1) :: 32 word) = n + 1
     \<and> (a7 = 1024 \<longrightarrow>
          (\<exists>s'. rspSyscallRequest T cType s = Some (Inr s') \<and>
             rsp_outbox s' = rsp_outbox s @
               [''Fopen,'' @ PRIxREG a0 @ ''/'' @ printf_x (n + 1) @ '','' @ PRIxREG a1
                  @ '','' @ PRIxREG a2]))
     \<and> (a7 = 1026 \<longrightarrow>
          (\<exists>s'. rspSyscallRequest T cType s = Some (Inr s') \<and>
             rsp_outbox s' = rsp_outbox s @ [''Funlink,'' @ PRIxREG a0 @ ''/'' @ printf_x (n + 1)]))
     \<and> (a7 = 1038 \<longrightarrow>
          (\<exists>s'. rspSyscallRequest T cType s = Some (Inr s') \<and>
             rsp_outbox s' = rsp_outbox s @
               [''Fstat,'' @ PRIxREG a0 @ ''/'' @ printf_x (n + 1) @ '','' @ PRIxREG a1]))"
proof -
  let ?s5 = "s\<lparr>mSyscallContinuation := cType,
                tlog := tlog s @ [ReadRegister 10, ReadRegister 11, ReadRegister 12,
                                  ReadRegister 13, ReadRegister 17]\<rparr>"
  have u: "unat (of_nat (n + 1) :: 32 word) = n + 1"
    using assms(3) by (intro of_nat_inverse [OF refl]) simp
  have x: "PRIxREG (of_nat (Suc n)) = printf_x (Suc n)"
    using u by (simp add: PRIxREG_def del: of_nat_Suc)
  have sl: "stringLength T a0 t =
           Some (of_nat (n + 1),
                 t\<lparr>tlog := tlog t @ map (\<lambda>i. Read (a0 + of_nat i) 1) [0..<n + 1]\<rparr>)"
    if "cpu t = cpu s" for t :: "'a GdbServerImpl"
    using assms(1,2) that by (intro stringLength_counts) simp_all
  have sl5: "stringLength T a0 ?s5 =
           Some (of_nat (Suc n),
                 ?s5\<lparr>tlog := tlog ?s5 @ map (\<lambda>i. Read (a0 + of_nat i) 1) [0..<Suc n]\<rparr>)"
    using sl [of ?s5] by simp
  note simps = rspSyscallRequest_def syscall_args_eq sl5 sendf_eq PRIxREG_no_NUL
    assms(4-7) [symmetric] x
  have o: "a7 = 1024 \<longrightarrow>
          (\<exists>s'. rspSyscallRequest T cType s = Some (Inr s') \<and>
             rsp_outbox s' = rsp_outbox s @
               [''Fopen,'' @ PRIxREG a0 @ ''/'' @ printf_x (n + 1) @ '','' @ PRIxREG a1
                  @ '','' @ PRIxREG a2])"
    by (simp add: simps del: of_nat_Suc upt_Suc)
  have ul: "a7 = 1026 \<longrightarrow>
          (\<exists>s'. rspSyscallRequest T cType s = Some (Inr s') \<and>
             rsp_outbox s' = rsp_outbox s @ [''Funlink,'' @ PRIxREG a0 @ ''/'' @ printf_x (n + 1)])"
    by (simp add: simps del: of_nat_Suc upt_Suc)
  have st: "a7 = 1038 \<longrightarrow>
          (\<exists>s'. rspSyscallRequest T cType s = Some (Inr s') \<and>
             rsp_outbox s' = rsp_outbox s @
               [''Fstat,'' @ PRIxREG a0 @ ''/'' @ printf_x (n + 1) @ '','' @ PRIxREG a1])"
    by (simp add: simps del: of_nat_Suc upt_Suc)
  show ?thesis
    using sl [of s] u o ul st by simp
qed


theorem path_syscall_length_counts_to_NUL_witness:
  "target_read simTarget 0x100 1
     (cpu ((server0 [])\<lparr>cpu := sim0\<lparr>sim_regs := (\<lambda>r. 0)(17 := 1024, 10 := 0x100, 11 := 0x2000, 12 := 5),
                                      sim_mem := (\<lambda>a. 0)(0x100 := 104, 0x101 := 105)\<rparr>\<rparr>)) = [104]
   \<and> target_read simTarget 0x101 1
     (cpu ((server0 [])\<lparr>cpu := sim0\<lparr>sim_regs := (\<lambda>r. 0)(17 := 1024, 10 := 0x100, 11 := 0x2000, 12 := 5),
                                      sim_mem := (\<lambda>a. 0)(0x100 := 104, 0x101 := 105)\<rparr>\<rparr>)) = [105]
   \<and> target_read simTarget 0x102 1
     (cpu ((server0 [])\<lparr>cpu := sim0\<lparr>sim_regs := (\<lambda>r. 0)(17 := 1024, 10 := 0x100, 11 := 0x2000, 12 := 5),
                                      sim_mem := (\<lambda>a. 0)(0x100 := 104, 0x101 := 105)\<rparr>\<rparr>)) = [0]
   \<and> (\<exists>s'. rspSyscallRequest simTarget SYSCALL_THEN_FINISH_CONTINUE
         ((server0 [])\<lparr>cpu := sim0\<lparr>sim_regs := (\<lambda>r. 0)(17 := 1024, 10 := 0x100, 11 := 0x2000, 12 := 5),
                                     sim_mem := (\<lambda>a. 0)(0x100 := 104, 0x101 := 105)\<rparr>\<rparr>)
         = Some (Inr s')
       \<and> rsp_outbox s' = [''Fopen,100/3,2000,5''])"
proof -
  let ?s = "(server0 [])\<lparr>cpu := sim0\<lparr>sim_regs := (\<lambda>r. 0)(17 := 1024, 10 := 0x100, 11 := 0x2000, 12 := 5),
                                      sim_mem := (\<lambda>a. 0)(0x100 := 104, 0x101 := 105)\<rparr>\<rparr>"
  have r0: "target_read simTarget 0x100 1 (cpu ?s) = [104]"
    and r1: "target_read simTarget 0x101 1 (cpu ?s) = [105]"
    and r2: "target_read simTarget 0x102 1 (cpu ?s) = [0]"
    by (simp_all add: simTarget_def)
  have h1: "\<forall>i<2. \<exists>b. target_read simTarget (0x100 + of_nat i) 1 (cpu ?s) = [b] \<and> b \<noteq> 0"
  proof (intro allI impI)
    fix i :: nat assume "i < 2"
    then consider "i = 0" | "i = 1" by linarith
    then show "\<exists>b. target_read simTarget (0x100 + of_nat i) 1 (cpu ?s) = [b] \<and> b \<noteq> 0"
      using r0 r1 by cases simp_all
  qed
  have h2: "target_read simTarget (0x100 + of_nat 2) 1 (cpu ?s) = [0]"
    using r2 by simp
  have h3: "(2::nat) + 1 < 2 ^ 32" by simp
  have a0: "(0x100 :: 32 word) = snd (readRegister simTarget 10 (cpu ?s))"
    and a1: "(0x2000 :: 32 word) = snd (readRegister simTarget 11 (cpu ?s))"
    and a2: "(5 :: 32 word) = snd (readRegister simTarget 12 (cpu ?s))"
    and a7: "(1024 :: 32 word) = snd (readRegister simTarget 17 (cpu ?s))"
    by (simp_all add: simTarget_def)
  have x: "PRIxREG 0x100 = ''100''" "PRIxREG 0x2000 = ''2000''" "PRIxREG 5 = ''5''"
    "printf_x (2 + 1) = ''3''"
    by (simp_all add: PRIxREG_def printf_x.simps xdigit_def)
  have o: "rsp_outbox ?s = []"
    by (simp add: server0_def GdbServerImpl_new_def)
  from path_syscall_length_counts_to_NUL
         [OF h1 h2 h3 a0 a1 a2 a7, of SYSCALL_THEN_FINISH_CONTINUE]
  have "\<exists>s'. rspSyscallRequest simTarget SYSCALL_THEN_FINISH_CONTINUE ?s = Some (Inr s')
       \<and> rsp_outbox s' = [''Fopen,100/3,2000,5'']"
    unfolding x o by simp
  with r0 r1 r2 show ?thesis by blast
qed

subsection \<open>A slice of a continue that times out\<close>

lemma rspContinue_loop_TIMEOUT:
  assumes "resume T CONTINUE (Some interruptTimeout) (cpu s) = (TIMEOUT, c)"
  shows "rspContinue_loop T timeout_end s =
     (let s1 = s\<lparr>cpu := c, tlog := tlog s @ [Resume CONTINUE (Some interruptTimeout)]\<rparr>;
          s2 = (if mTimeout s \<noteq> 0 then s1\<lparr>clock_reads := Suc (clock_reads s)\<rparr> else s1);
          s3 = s2\<lparr>rsp_polls := Suc (rsp_polls s)\<rparr>
      in if mTimeout s \<noteq> 0 \<and> timeout_end < clock s (clock_reads s) then
           Some (Inr (rspReportException TargetSignal_XCPU (snd (cpu_resume T STOP None s2))))
         else if rsp_breaks s (rsp_polls s) then
           Some (Inr (rspReportException TargetSignal_INT (snd (cpu_resume T STOP None s3))))
         else rspContinue_loop T timeout_end s3)"
proof (cases "mTimeout s = 0")
  case True
  then show ?thesis
    by (subst rspContinue_loop.simps)
       (simp add: cpu_resume_def assms haveBreak_def Let_def)
next
  case False
  then show ?thesis
    by (subst rspContinue_loop.simps)
       (simp add: cpu_resume_def assms haveBreak_def now_def Let_def)
qed

text \<open>
  C5. When a slice of a continue (\<open>resume CONTINUE\<close> for \<open>interruptTimeout\<close>)
  returns TIMEOUT, the server first compares the clock with the deadline, and only when
  the user timeout is not zero; past the deadline it stops the target and sends the
  XCPU stop-reply \<open>S18\<close>. Otherwise it polls for a break and, when one is pending,
  stops the target and sends the INT stop-reply \<open>S02\<close>; otherwise it runs another
  slice. Hence a continue whose user timeout is zero never sends \<open>S18\<close>, and a break
  that is pending when a slice times out is answered with \<open>S02\<close> after that very
  slice, with no further slice (with a zero timeout always, with a non-zero one unless
  the deadline has passed).
\<close>

theorem continue_slice_timeout_then_break:
  assumes "resume T CONTINUE (Some interruptTimeout) (cpu s) = (TIMEOUT, c)"
  shows
    "(mTimeout s \<noteq> 0 \<and> timeout_end < clock s (clock_reads s) \<longrightarrow>
        (\<exists>s'. rspContinue_loop T timeout_end s = Some (Inr s')
           \<and> rsp_outbox s' = rsp_outbox s @ [''S18'']
           \<and> tlog s' = tlog s @ [Resume CONTINUE (Some interruptTimeout), Resume STOP None]))
     \<and> (\<not> (mTimeout s \<noteq> 0 \<and> timeout_end < clock s (clock_reads s))
          \<and> rsp_breaks s (rsp_polls s) \<longrightarrow>
        (\<exists>s'. rspContinue_loop T timeout_end s = Some (Inr s')
           \<and> rsp_outbox s' = rsp_outbox s @ [''S02'']
           \<and> tlog s' = tlog s @ [Resume CONTINUE (Some interruptTimeout), Resume STOP None]))
     \<and> (\<not> (mTimeout s \<noteq> 0 \<and> timeout_end < clock s (clock_reads s))
          \<and> \<not> rsp_breaks s (rsp_polls s) \<longrightarrow>
        rspContinue_loop T timeout_end s =
          rspContinue_loop T timeout_end
            (s\<lparr>cpu := c,
               tlog := tlog s @ [Resume CONTINUE (Some interruptTimeout)],
               clock_reads := (if mTimeout s \<noteq> 0 then Suc (clock_reads s) else clock_reads s),
               rsp_polls := Suc (rsp_polls s)\<rparr>))
     \<and> (mTimeout s = 0 \<longrightarrow>
        (\<forall>s'. rspContinue T s = Some (Inr s') \<longrightarrow>
           ''S18'' \<notin> set (drop (length (rsp_outbox s)) (rsp_outbox s'))))"
proof -
  note u = rspContinue_loop_TIMEOUT [OF assms, of timeout_end]
  have A: "mTimeout s \<noteq> 0 \<and> timeout_end < clock s (clock_reads s) \<longrightarrow>
        (\<exists>s'. rspContinue_loop T timeout_end s = Some (Inr s')
           \<and> rsp_outbox s' = rsp_outbox s @ [''S18'']
           \<and> tlog s' = tlog s @ [Resume CONTINUE (Some interruptTimeout), Resume STOP None])"
    unfolding u
    by (simp add: Let_def rspReportException_eq stopReply_simps cpu_resume_fields)
  have B: "\<not> (mTimeout s \<noteq> 0 \<and> timeout_end < clock s (clock_reads s))
          \<and> rsp_breaks s (rsp_polls s) \<longrightarrow>
        (\<exists>s'. rspContinue_loop T timeout_end s = Some (Inr s')
           \<and> rsp_outbox s' = rsp_outbox s @ [''S02'']
           \<and> tlog s' = tlog s @ [Resume CONTINUE (Some interruptTimeout), Resume STOP None])"
    unfolding u
    by (simp add: Let_def rspReportException_eq stopReply_simps cpu_resume_fields)
  have C: "\<not> (mTimeout s \<noteq> 0 \<and> timeout_end < clock s (clock_reads s))
          \<and> \<not> rsp_breaks s (rsp_polls s) \<longrightarrow>
        rspContinue_loop T timeout_end s =
          rspContinue_loop T timeout_end
            (s\<lparr>cpu := c,
               tlog := tlog s @ [Resume CONTINUE (Some interruptTimeout)],
               clock_reads := (if mTimeout s \<noteq> 0 then Suc (clock_reads s) else clock_reads s),
               rsp_polls := Suc (rsp_polls s)\<rparr>)"
  proof (intro impI)
    assume h: "\<not> (mTimeout s \<noteq> 0 \<and> timeout_end < clock s (clock_reads s))
          \<and> \<not> rsp_breaks s (rsp_polls s)"
    show "rspContinue_loop T timeout_end s =
          rspContinue_loop T timeout_end
            (s\<lparr>cpu := c,
               tlog := tlog s @ [Resume CONTINUE (Some interruptTimeout)],
               clock_reads := (if mTimeout s \<noteq> 0 then Suc (clock_reads s) else clock_reads s),
               rsp_polls := Suc (rsp_polls s)\<rparr>)"
    proof (cases "mTimeout s = 0")
      case True
      with h show ?thesis by (subst u) (simp add: Let_def)
    next
      case False
      with h show ?thesis by (subst u) (simp add: Let_def)
    qed
  qed
  have D: "mTimeout s = 0 \<longrightarrow>
        (\<forall>s'. rspContinue T s = Some (Inr s') \<longrightarrow>
           ''S18'' \<notin> set (drop (length (rsp_outbox s)) (rsp_outbox s')))"
  proof (intro impI allI)
    fix s' assume z: "mTimeout s = 0" and r: "rspContinue T s = Some (Inr s')"
    from rspContinue_effect [OF r] z obtain p where
      "rsp_outbox s' = rsp_outbox s @ [p]" "p \<noteq> ''S18''"
      unfolding continue_effect_def by auto
    then show "''S18'' \<notin> set (drop (length (rsp_outbox s)) (rsp_outbox s'))"
      by simp
  qed
  from A B C D show ?thesis by blast
qed

theorem continue_slice_timeout_then_break_witness:
  "resume simTarget CONTINUE (Some interruptTimeout)
     (cpu ((server0 [])\<lparr>rsp_breaks := (\<lambda>n. True)\<rparr>)) = (TIMEOUT, sim0)
   \<and> (\<exists>s'. rspContinue_loop simTarget 0 ((server0 [])\<lparr>rsp_breaks := (\<lambda>n. True)\<rparr>)
              = Some (Inr s')
          \<and> rsp_outbox s' = [''S02'']
          \<and> tlog s' = [Resume CONTINUE (Some interruptTimeout), Resume STOP None])"
proof -
  let ?s = "(server0 [])\<lparr>rsp_breaks := (\<lambda>n. True)\<rparr>"
  have h: "resume simTarget CONTINUE (Some interruptTimeout) (cpu ?s) = (TIMEOUT, sim0)"
    by (simp add: simTarget_def server0_def GdbServerImpl_new_def sim0_def)
  have f: "mTimeout ?s = 0" "rsp_breaks ?s (rsp_polls ?s)" "rsp_outbox ?s = []" "tlog ?s = []"
    by (simp_all add: server0_def GdbServerImpl_new_def)
  from continue_slice_timeout_then_break [OF h, of 0] f
  have "\<exists>s'. rspContinue_loop simTarget 0 ?s = Some (Inr s')
          \<and> rsp_outbox s' = [''S02'']
          \<and> tlog s' = [Resume CONTINUE (Some interruptTimeout), Resume STOP None]"
    by simp
  with h show ?thesis by blast
qed

subsection \<open>The reply to a syscall request\<close>

lemma cpu_writeRegister_snd:
  "snd (cpu_writeRegister T reg v s) =
     s\<lparr>cpu := snd (writeRegister T reg v (cpu s)), tlog := tlog s @ [WriteRegister reg v]\<rparr>"
  by (simp add: cpu_writeRegister_def split: prod.splits)

lemma rspSyscallReply_valid:
  assumes "p = parse H (cstr (pkt_data s))" and "valid p"
    and "s2 = (if retcode p \<noteq> - 1
               then s\<lparr>mSyscallContinuation := SYSCALL_NONE_PENDING,
                      cpu := snd (writeRegister T 10 (retcode p) (cpu s)),
                      tlog := tlog s @ [WriteRegister 10 (retcode p)]\<rparr>
               else s\<lparr>mSyscallContinuation := SYSCALL_NONE_PENDING\<rparr>)"
  shows "rspSyscallReply H T s =
     (if hasCtrlC p then Some (Inr (rspReportException TargetSignal_INT s2))
      else if mSyscallContinuation s = SYSCALL_THEN_FINISH_CONTINUE then rspContinue T s2
      else Some (Inr (rspReportException TargetSignal_TRAP s2)))"
proof -
  have e: "(if retcode p \<noteq> - 1
            then snd (cpu_writeRegister T 10 (retcode p)
                       (s\<lparr>mSyscallContinuation := SYSCALL_NONE_PENDING\<rparr>))
            else s\<lparr>mSyscallContinuation := SYSCALL_NONE_PENDING\<rparr>) = s2"
    unfolding assms(3) by (simp add: cpu_writeRegister_snd)
  have p: "parse H (cstr (pkt_data (s\<lparr>mSyscallContinuation := SYSCALL_NONE_PENDING\<rparr>))) = p"
    by (simp add: assms(1))
  show ?thesis
    unfolding rspSyscallReply_def Let_def p e
    using assms(2) by (cases "mSyscallContinuation s") simp_all
qed

lemma rspSyscallReply_invalid:
  assumes "\<not> valid (parse H (cstr (pkt_data s)))"
  shows "rspSyscallReply H T s =
           Some (Inr (putPkt (packStr ''E01'' (s\<lparr>mSyscallContinuation := SYSCALL_NONE_PENDING\<rparr>))))"
  using assms by (simp add: rspSyscallReply_def Let_def)

text \<open>
  C3. On an F reply the server takes the pending continuation and sets it to
  \<open>SYSCALL_NONE_PENDING\<close> at once, whatever the reply holds. For a valid reply \<open>s2\<close>
  is the server after that and after the write of the return code, if any. A reply with
  the Ctrl-C flag sends the INT stop-reply \<open>S02\<close> and does not resume the target; a
  reply without it sends the TRAP stop-reply \<open>S05\<close> when the continuation taken was
  \<open>SYSCALL_THEN_FINISH_STEPPING\<close> or \<open>SYSCALL_NONE_PENDING\<close>, again without a
  resume, and runs \<open>rspContinue\<close> from \<open>s2\<close>, whose continuation is already reset,
  when it was \<open>SYSCALL_THEN_FINISH_CONTINUE\<close>.
\<close>

theorem syscall_reply_resumes_from_latched_continuation:
  assumes "p = parse H (cstr (pkt_data s))"
    and "s2 = (if retcode p \<noteq> - 1
               then s\<lparr>mSyscallContinuation := SYSCALL_NONE_PENDING,
                      cpu := snd (writeRegister T 10 (retcode p) (cpu s)),
                      tlog := tlog s @ [WriteRegister 10 (retcode p)]\<rparr>
               else s\<lparr>mSyscallContinuation := SYSCALL_NONE_PENDING\<rparr>)"
  shows
    "(valid p \<and> hasCtrlC p \<longrightarrow>
        (\<exists>s'. rspSyscallReply H T s = Some (Inr s')
           \<and> rsp_outbox s' = rsp_outbox s @ [''S02'']
           \<and> tlog s' = tlog s2 \<and> cpu s' = cpu s2
           \<and> mSyscallContinuation s' = SYSCALL_NONE_PENDING))
     \<and> (valid p \<and> \<not> hasCtrlC p
          \<and> (mSyscallContinuation s = SYSCALL_THEN_FINISH_STEPPING
               \<or> mSyscallContinuation s = SYSCALL_NONE_PENDING) \<longrightarrow>
        (\<exists>s'. rspSyscallReply H T s = Some (Inr s')
           \<and> rsp_outbox s' = rsp_outbox s @ [''S05'']
           \<and> tlog s' = tlog s2 \<and> cpu s' = cpu s2
           \<and> mSyscallContinuation s' = SYSCALL_NONE_PENDING))
     \<and> (valid p \<and> \<not> hasCtrlC p \<and> mSyscallContinuation s = SYSCALL_THEN_FINISH_CONTINUE \<longrightarrow>
        rspSyscallReply H T s = rspContinue T s2
          \<and> mSyscallContinuation s2 = SYSCALL_NONE_PENDING)
     \<and> (\<not> valid p \<longrightarrow>
        (\<exists>s'. rspSyscallReply H T s = Some (Inr s')
           \<and> mSyscallContinuation s' = SYSCALL_NONE_PENDING))
     \<and> (\<forall>ty tmo. Resume ty tmo \<notin> set (drop (length (tlog s)) (tlog s2)))"
proof -
  have f: "rsp_outbox s2 = rsp_outbox s" "mSyscallContinuation s2 = SYSCALL_NONE_PENDING"
    unfolding assms(2) by simp_all
  have A: "valid p \<and> hasCtrlC p \<longrightarrow>
        (\<exists>s'. rspSyscallReply H T s = Some (Inr s')
           \<and> rsp_outbox s' = rsp_outbox s @ [''S02'']
           \<and> tlog s' = tlog s2 \<and> cpu s' = cpu s2
           \<and> mSyscallContinuation s' = SYSCALL_NONE_PENDING)"
    using f
    by (auto simp: rspSyscallReply_valid [OF assms(1) _ assms(2)] rspReportException_eq
          stopReply_simps)
  have B: "valid p \<and> \<not> hasCtrlC p
          \<and> (mSyscallContinuation s = SYSCALL_THEN_FINISH_STEPPING
               \<or> mSyscallContinuation s = SYSCALL_NONE_PENDING) \<longrightarrow>
        (\<exists>s'. rspSyscallReply H T s = Some (Inr s')
           \<and> rsp_outbox s' = rsp_outbox s @ [''S05'']
           \<and> tlog s' = tlog s2 \<and> cpu s' = cpu s2
           \<and> mSyscallContinuation s' = SYSCALL_NONE_PENDING)"
    using f
    by (auto simp: rspSyscallReply_valid [OF assms(1) _ assms(2)] rspReportException_eq
          stopReply_simps)
  have C: "valid p \<and> \<not> hasCtrlC p \<and> mSyscallContinuation s = SYSCALL_THEN_FINISH_CONTINUE \<longrightarrow>
        rspSyscallReply H T s = rspContinue T s2
          \<and> mSyscallContinuation s2 = SYSCALL_NONE_PENDING"
    using f by (auto simp: rspSyscallReply_valid [OF assms(1) _ assms(2)])
  have D: "\<not> valid p \<longrightarrow>
        (\<exists>s'. rspSyscallReply H T s = Some (Inr s')
           \<and> mSyscallContinuation s' = SYSCALL_NONE_PENDING)"
    unfolding assms(1)
    by (auto simp: rspSyscallReply_invalid packStr_putPkt_eq)
  have E: "\<forall>ty tmo. Resume ty tmo \<notin> set (drop (length (tlog s)) (tlog s2))"
    unfolding assms(2) by simp
  from A B C D E show ?thesis by blast
qed


lemma parse_F5:
  "parse simHelpers (cstr (''F5'' @ [NUL])) = \<lparr>valid = True, retcode = 5, hasCtrlC = False\<rparr>"
  by (simp add: simHelpers_def parseSyscallReply_def cstr_def scan_lit_def scan_hexnum_def
        xval_def digits_value_def Let_def)

theorem syscall_reply_resumes_from_latched_continuation_witness:
  "valid (parse simHelpers (cstr (pkt_data
       ((server0 [])\<lparr>pkt_data := ''F5'' @ [NUL],
                     mSyscallContinuation := SYSCALL_THEN_FINISH_STEPPING\<rparr>))))
   \<and> \<not> hasCtrlC (parse simHelpers (cstr (pkt_data
       ((server0 [])\<lparr>pkt_data := ''F5'' @ [NUL],
                     mSyscallContinuation := SYSCALL_THEN_FINISH_STEPPING\<rparr>))))
   \<and> (\<exists>s'. rspSyscallReply simHelpers simTarget
         ((server0 [])\<lparr>pkt_data := ''F5'' @ [NUL],
                       mSyscallContinuation := SYSCALL_THEN_FINISH_STEPPING\<rparr>) = Some (Inr s')
       \<and> rsp_outbox s' = [''S05''] \<and> tlog s' = [WriteRegister 10 5]
       \<and> mSyscallContinuation s' = SYSCALL_NONE_PENDING)"
proof -
  let ?s = "(server0 [])\<lparr>pkt_data := ''F5'' @ [NUL],
                         mSyscallContinuation := SYSCALL_THEN_FINISH_STEPPING\<rparr>"
  have p: "parse simHelpers (cstr (pkt_data ?s)) = \<lparr>valid = True, retcode = 5, hasCtrlC = False\<rparr>"
    using parse_F5 by simp
  have f: "rsp_outbox ?s = []" "tlog ?s = []"
    "mSyscallContinuation ?s = SYSCALL_THEN_FINISH_STEPPING"
    by (simp_all add: server0_def GdbServerImpl_new_def)
  from syscall_reply_resumes_from_latched_continuation [OF refl refl, of simHelpers ?s simTarget]
  have "\<exists>s'. rspSyscallReply simHelpers simTarget ?s = Some (Inr s')
       \<and> rsp_outbox s' = [''S05''] \<and> tlog s' = [WriteRegister 10 5]
       \<and> mSyscallContinuation s' = SYSCALL_NONE_PENDING"
    unfolding p f by auto
  then show ?thesis unfolding p by simp
qed

text \<open>
  C4. A valid F reply whose return code is not -1 makes the server write the return
  code to register a0 (10) before anything else, and that is the only register write of
  the whole handling, a resumed continue included; with the return code -1 no register
  is written at all. When the handling ends without a continue, the target is in the
  state the write left, or untouched when there was no write. An invalid reply is
  answered with \<open>E01\<close>, and the server makes no call on the target: no write, no
  resume.
\<close>

theorem syscall_reply_writes_a0_unless_minus_one:
  assumes "p = parse H (cstr (pkt_data s))"
  shows
    "(valid p \<and> retcode p \<noteq> - 1 \<longrightarrow>
        (\<forall>s'. rspSyscallReply H T s = Some (Inr s') \<longrightarrow>
           (\<exists>l. tlog s' = tlog s @ WriteRegister 10 (retcode p) # l
                \<and> (\<forall>e\<in>set l. \<not> is_WriteRegister e))))
     \<and> (valid p \<and> retcode p = - 1 \<longrightarrow>
        (\<forall>s'. rspSyscallReply H T s = Some (Inr s') \<longrightarrow>
           (\<exists>l. tlog s' = tlog s @ l \<and> (\<forall>e\<in>set l. \<not> is_WriteRegister e))))
     \<and> (valid p \<and> (hasCtrlC p \<or> mSyscallContinuation s \<noteq> SYSCALL_THEN_FINISH_CONTINUE) \<longrightarrow>
        (\<exists>s'. rspSyscallReply H T s = Some (Inr s')
           \<and> cpu s' = (if retcode p \<noteq> - 1 then snd (writeRegister T 10 (retcode p) (cpu s))
                        else cpu s)
           \<and> tlog s' = tlog s @ (if retcode p \<noteq> - 1 then [WriteRegister 10 (retcode p)] else [])))
     \<and> (\<not> valid p \<longrightarrow>
        (\<exists>s'. rspSyscallReply H T s = Some (Inr s')
           \<and> rsp_outbox s' = rsp_outbox s @ [''E01'']
           \<and> tlog s' = tlog s \<and> cpu s' = cpu s))"
proof -
  define s2 where "s2 = (if retcode p \<noteq> - 1
               then s\<lparr>mSyscallContinuation := SYSCALL_NONE_PENDING,
                      cpu := snd (writeRegister T 10 (retcode p) (cpu s)),
                      tlog := tlog s @ [WriteRegister 10 (retcode p)]\<rparr>
               else s\<lparr>mSyscallContinuation := SYSCALL_NONE_PENDING\<rparr>)"
  define w where "w = (if retcode p \<noteq> - 1 then [WriteRegister 10 (retcode p)] else [])"
  have s2: "tlog s2 = tlog s @ w"
    "cpu s2 = (if retcode p \<noteq> - 1 then snd (writeRegister T 10 (retcode p) (cpu s)) else cpu s)"
    by (simp_all add: s2_def w_def)
  note v = rspSyscallReply_valid [OF assms _ s2_def]
  have later: "\<exists>l. tlog s' = tlog s @ w @ l \<and> (\<forall>e\<in>set l. \<not> is_WriteRegister e)"
    if "valid p" and r: "rspSyscallReply H T s = Some (Inr s')" for s'
  proof -
    consider (int) "hasCtrlC p"
      | (cont) "\<not> hasCtrlC p" "mSyscallContinuation s = SYSCALL_THEN_FINISH_CONTINUE"
      | (trap) "\<not> hasCtrlC p" "mSyscallContinuation s \<noteq> SYSCALL_THEN_FINISH_CONTINUE"
      by blast
    then show ?thesis
    proof cases
      case int
      with r v [OF that(1)] have "s' = rspReportException TargetSignal_INT s2" by simp
      then have "tlog s' = tlog s @ w @ []" by (simp add: rspReportException_eq s2)
      then show ?thesis by (intro exI [of _ "[]"]) simp
    next
      case trap
      with r v [OF that(1)] have "s' = rspReportException TargetSignal_TRAP s2" by simp
      then have "tlog s' = tlog s @ w @ []" by (simp add: rspReportException_eq s2)
      then show ?thesis by (intro exI [of _ "[]"]) simp
    next
      case cont
      with r v [OF that(1)] have "rspContinue T s2 = Some (Inr s')" by simp
      from rspContinue_effect [OF this] obtain l where
        "tlog s' = tlog s2 @ l" "\<forall>e\<in>set l. \<not> is_WriteRegister e"
        unfolding continue_effect_def by auto
      then show ?thesis using s2(1) by auto
    qed
  qed
  have A: "valid p \<and> retcode p \<noteq> - 1 \<longrightarrow>
        (\<forall>s'. rspSyscallReply H T s = Some (Inr s') \<longrightarrow>
           (\<exists>l. tlog s' = tlog s @ WriteRegister 10 (retcode p) # l
                \<and> (\<forall>e\<in>set l. \<not> is_WriteRegister e)))"
    using later by (auto simp: w_def)
  have B: "valid p \<and> retcode p = - 1 \<longrightarrow>
        (\<forall>s'. rspSyscallReply H T s = Some (Inr s') \<longrightarrow>
           (\<exists>l. tlog s' = tlog s @ l \<and> (\<forall>e\<in>set l. \<not> is_WriteRegister e)))"
    using later by (auto simp: w_def)
  have C: "valid p \<and> (hasCtrlC p \<or> mSyscallContinuation s \<noteq> SYSCALL_THEN_FINISH_CONTINUE) \<longrightarrow>
        (\<exists>s'. rspSyscallReply H T s = Some (Inr s')
           \<and> cpu s' = (if retcode p \<noteq> - 1 then snd (writeRegister T 10 (retcode p) (cpu s))
                        else cpu s)
           \<and> tlog s' = tlog s @ w)"
    using s2 by (auto simp: v rspReportException_eq)
  have D: "\<not> valid p \<longrightarrow>
        (\<exists>s'. rspSyscallReply H T s = Some (Inr s')
           \<and> rsp_outbox s' = rsp_outbox s @ [''E01'']
           \<and> tlog s' = tlog s \<and> cpu s' = cpu s)"
    unfolding assms
    by (auto simp: rspSyscallReply_invalid packStr_putPkt_eq)
  from A B C D show ?thesis unfolding w_def by blast
qed

lemma parse_Fminus1:
  "parse simHelpers (cstr (''F-1,9'' @ [NUL])) = \<lparr>valid = True, retcode = - 1, hasCtrlC = False\<rparr>"
  by (simp add: simHelpers_def parseSyscallReply_def cstr_def scan_lit_def scan_hexnum_def
        xval_def digits_value_def Let_def)

theorem syscall_reply_writes_a0_unless_minus_one_witness:
  "valid (parse simHelpers (cstr (pkt_data ((server0 [])\<lparr>pkt_data := ''F-1,9'' @ [NUL]\<rparr>))))
   \<and> retcode (parse simHelpers (cstr (pkt_data ((server0 [])\<lparr>pkt_data := ''F-1,9'' @ [NUL]\<rparr>)))) = - 1
   \<and> mSyscallContinuation ((server0 [])\<lparr>pkt_data := ''F-1,9'' @ [NUL]\<rparr>)
       \<noteq> SYSCALL_THEN_FINISH_CONTINUE
   \<and> (\<exists>s'. rspSyscallReply simHelpers simTarget ((server0 [])\<lparr>pkt_data := ''F-1,9'' @ [NUL]\<rparr>)
              = Some (Inr s')
          \<and> cpu s' = sim0 \<and> tlog s' = [])"
proof -
  let ?s = "(server0 [])\<lparr>pkt_data := ''F-1,9'' @ [NUL]\<rparr>"
  have p: "parse simHelpers (cstr (pkt_data ?s)) = \<lparr>valid = True, retcode = - 1, hasCtrlC = False\<rparr>"
    using parse_Fminus1 by simp
  have f: "tlog ?s = []" "cpu ?s = sim0" "mSyscallContinuation ?s = SYSCALL_NONE_PENDING"
    by (simp_all add: server0_def GdbServerImpl_new_def)
  from syscall_reply_writes_a0_unless_minus_one [OF refl, of simHelpers ?s simTarget]
  have "\<exists>s'. rspSyscallReply simHelpers simTarget ?s = Some (Inr s')
          \<and> cpu s' = sim0 \<and> tlog s' = []"
    unfolding p f by simp
  then show ?thesis unfolding p f by simp
qed

subsection \<open>Writing memory\<close>

lemma rspWriteMem_loop_effect:
  "rspWriteMem_loop H T addr symDat offs s =
     s\<lparr>cpu := foldl (\<lambda>c off. snd (target_write T (addr + of_nat off)
                                    [hexPair H (pkt_data s) (symDat + off * 2)] c))
                    (cpu s) offs,
       tlog := tlog s @ map (\<lambda>off. Write (addr + of_nat off)
                                     [hexPair H (pkt_data s) (symDat + off * 2)]) offs\<rparr>"
proof (induction offs arbitrary: s)
  case Nil
  show ?case by simp
next
  case (Cons off offs)
  show ?case
    by (simp add: Cons.IH Let_def cpu_write_def hexPair_def split: prod.splits)
qed

text \<open>
  C8. For a write-memory packet whose header \<^verbatim>\<open>M<addr>,<len>:\<close> is recognised and
  whose colon is at index \<open>k\<close>, the data are the \<open>datLen\<close> characters after the colon.
  When \<open>len * 2\<close> differs from \<open>datLen\<close> the server replies \<open>E01\<close> and makes no
  call on the target, whose state stays as it was; when they are equal it decodes the
  hex pairs in order, writes each byte with one call, lowest address first, and replies
  \<open>OK\<close>. The product is the 32-bit one of the source; it is the mathematical
  \<open>2 * len\<close> whenever that fits a C \<^verbatim>\<open>int\<close>.
\<close>

theorem write_memory_requires_matching_length:
  assumes "sscanf_c_x_x CHR ''M'' (cstr (pkt_data s)) = Some (a, l)"
    and "memchr (pkt_data s) CHR '':'' (pkt_bufSize s) = Some k"
    and "addr = (ucast a :: 32 word)"
    and "len = (ucast l :: 32 word)"
    and "datLen = int (pkt_len s) - int (k + 1)"
  shows
    "(sint (len * 2) \<noteq> datLen \<longrightarrow>
        (\<exists>s'. rspWriteMem H T s = Inr s'
           \<and> rsp_outbox s' = rsp_outbox s @ [''E01'']
           \<and> cpu s' = cpu s \<and> tlog s' = tlog s))
     \<and> (sint (len * 2) = datLen \<longrightarrow>
        (\<exists>s'. rspWriteMem H T s = Inr s'
           \<and> rsp_outbox s' = rsp_outbox s @ [''OK'']
           \<and> tlog s' = tlog s @ map (\<lambda>off. Write (addr + of_nat off)
                                       [hexPair H (pkt_data s) (k + 1 + off * 2)])
                                    [0..<nat (sint len)]
           \<and> cpu s' = foldl (\<lambda>c off. snd (target_write T (addr + of_nat off)
                                       [hexPair H (pkt_data s) (k + 1 + off * 2)] c))
                         (cpu s) [0..<nat (sint len)]))
     \<and> (- (2 ^ 30) \<le> sint len \<and> sint len < 2 ^ 30 \<longrightarrow> sint (len * 2) = 2 * sint len)"
proof -
  have A: "sint (len * 2) \<noteq> datLen \<longrightarrow>
        (\<exists>s'. rspWriteMem H T s = Inr s'
           \<and> rsp_outbox s' = rsp_outbox s @ [''E01'']
           \<and> cpu s' = cpu s \<and> tlog s' = tlog s)"
    unfolding rspWriteMem_def assms(1) assms(2) assms(4,5)
    by (simp add: Let_def reply_def packStr_putPkt_eq)
  have B: "sint (len * 2) = datLen \<longrightarrow>
        (\<exists>s'. rspWriteMem H T s = Inr s'
           \<and> rsp_outbox s' = rsp_outbox s @ [''OK'']
           \<and> tlog s' = tlog s @ map (\<lambda>off. Write (addr + of_nat off)
                                       [hexPair H (pkt_data s) (k + 1 + off * 2)])
                                    [0..<nat (sint len)]
           \<and> cpu s' = foldl (\<lambda>c off. snd (target_write T (addr + of_nat off)
                                       [hexPair H (pkt_data s) (k + 1 + off * 2)] c))
                         (cpu s) [0..<nat (sint len)])"
    unfolding rspWriteMem_def assms(1) assms(2) assms(3,4,5)
    by (simp add: Let_def reply_def packStr_putPkt_eq rspWriteMem_loop_effect)
  have C: "- (2 ^ 30) \<le> sint len \<and> sint len < 2 ^ 30 \<longrightarrow> sint (len * 2) = 2 * sint len"
  proof
    assume h: "- (2 ^ 30) \<le> sint len \<and> sint len < 2 ^ 30"
    have "sint (len * 2) = signed_take_bit 31 (sint len * 2)"
      by (simp add: sint_word_ariths)
    also have "\<dots> = sint len * 2"
      using h by (intro signed_take_bit_int_eq_self) simp_all
    finally show "sint (len * 2) = 2 * sint len" by simp
  qed
  from A B C show ?thesis by blast
qed


theorem write_memory_requires_matching_length_witness:
  "sscanf_c_x_x CHR ''M''
      (cstr (pkt_data ((server0 [])\<lparr>pkt_data := ''M1000,4:deadbeef'' @ [NUL], pkt_len := 16\<rparr>)))
     = Some (0x1000, 4)
   \<and> memchr (pkt_data ((server0 [])\<lparr>pkt_data := ''M1000,4:deadbeef'' @ [NUL], pkt_len := 16\<rparr>))
        CHR '':''
        (pkt_bufSize ((server0 [])\<lparr>pkt_data := ''M1000,4:deadbeef'' @ [NUL], pkt_len := 16\<rparr>))
     = Some 7
   \<and> (\<exists>s'. rspWriteMem simHelpers simTarget
               ((server0 [])\<lparr>pkt_data := ''M1000,4:deadbeef'' @ [NUL], pkt_len := 16\<rparr>) = Inr s'
          \<and> rsp_outbox s' = [''OK'']
          \<and> tlog s' = [Write 0x1000 [0xde], Write 0x1001 [0xad],
                        Write 0x1002 [0xbe], Write 0x1003 [0xef]])"
proof -
  let ?s = "(server0 [])\<lparr>pkt_data := ''M1000,4:deadbeef'' @ [NUL], pkt_len := 16\<rparr>"
  have h1: "sscanf_c_x_x CHR ''M'' (cstr (pkt_data ?s)) = Some (0x1000, 4)"
    by (simp add: cstr_def sscanf_c_x_x_def scan_lit_def scan_x_def scan_sign_def isspace_def
          xval_def digits_value_def strtoul_value_def Let_def)
  have h2: "memchr (pkt_data ?s) CHR '':'' (pkt_bufSize ?s) = Some 7"
    by (simp add: memchr_def server0_def GdbServerImpl_new_def Let_def)
  have f: "rsp_outbox ?s = []" "tlog ?s = []" "pkt_len ?s = 16"
    "pkt_data ?s = ''M1000,4:deadbeef'' @ [NUL]"
    by (simp_all add: server0_def GdbServerImpl_new_def)
  have n: "nat (sint (4 :: 32 word)) = 4" "sint (4 * 2 :: 32 word) = 8" by simp_all
  have u: "[0..<4] = [0, 1, 2, 3]" by (simp add: upt_conv_Cons)
  have b: "hexPair simHelpers (''M1000,4:deadbeef'' @ [NUL]) 8 = 0xde"
    "hexPair simHelpers (''M1000,4:deadbeef'' @ [NUL]) 10 = 0xad"
    "hexPair simHelpers (''M1000,4:deadbeef'' @ [NUL]) 12 = 0xbe"
    "hexPair simHelpers (''M1000,4:deadbeef'' @ [NUL]) 14 = 0xef"
    by (simp_all add: hexPair_def simHelpers_def nibble_def xval_def peek_def)
  from write_memory_requires_matching_length
         [OF h1 h2 refl refl refl, of simHelpers simTarget]
  have "\<exists>s'. rspWriteMem simHelpers simTarget ?s = Inr s'
          \<and> rsp_outbox s' = [''OK'']
          \<and> tlog s' = [Write 0x1000 [0xde], Write 0x1001 [0xad],
                        Write 0x1002 [0xbe], Write 0x1003 [0xef]]"
    unfolding f by (auto simp: n u b [simplified])
  with h1 h2 show ?thesis by blast
qed

subsection \<open>How many packets a request is answered with\<close>

lemma getPkt_Cons:
  assumes "rsp_inbox s = p # rest"
  shows "getPkt s =
     (True, s\<lparr>rsp_inbox := rest,
              pkt_data := p @ NUL # drop (Suc (length p)) (pkt_data s),
              pkt_len := length p\<rparr>)"
  by (simp add: getPkt_def assms poke0)

lemma peek_first: "peek (p @ NUL # rest) 0 = first_byte p"
  by (cases p) (simp_all add: peek_def first_byte_def)

lemma cstr_received: "cstr (p @ NUL # rest) = cstr p"
  by (induction p) (simp_all add: cstr_def)

lemma sends_one_putPkt:
  "rsp_outbox s1 = rsp_outbox s \<Longrightarrow> sends_one s (Inr (putPkt s1))"
  by (simp add: sends_one_def putPkt_def)

lemma sends_one_reply:
  "rsp_outbox s1 = rsp_outbox s \<Longrightarrow> sends_one s (Inr (reply str s1))"
  by (simp add: sends_one_def reply_def packStr_putPkt_eq)

lemma sends_one_report:
  "rsp_outbox s1 = rsp_outbox s \<Longrightarrow> sends_one s (Inr (rspReportException sig s1))"
  by (simp add: sends_one_def rspReportException_eq)

lemma sends_one_sendf:
  "NUL \<notin> set str \<Longrightarrow> rsp_outbox s1 = rsp_outbox s \<Longrightarrow> sends_one s (Inr (sendf str s1))"
  by (simp add: sends_one_def sendf_eq)

lemma continue_effect_sends_one:
  "continue_effect s r \<Longrightarrow> r = Inl EXIT_FAILURE \<or> sends_one s r"
  unfolding continue_effect_def sends_one_def by blast

lemma sends_one_outbox:
  "sends_one s1 r \<Longrightarrow> rsp_outbox s1 = rsp_outbox s \<Longrightarrow> sends_one s r"
  unfolding sends_one_def by simp

lemma rspReadAllRegs_loop_outbox:
  "rspReadAllRegs_loop H T regs n s = Inr (n', s') \<Longrightarrow> rsp_outbox s' = rsp_outbox s"
proof (induction regs arbitrary: n s)
  case Nil
  then show ?case by simp
next
  case (Cons reg regs)
  from Cons.prems show ?case
    by (auto simp: cpu_readRegister_def split: if_splits prod.splits dest!: Cons.IH)
qed

lemma rspReadAllRegs_loop_error:
  "rspReadAllRegs_loop H T regs n s = Inl e \<Longrightarrow> e = UNDEFINED"
proof (induction regs arbitrary: n s)
  case Nil
  then show ?case by simp
next
  case (Cons reg regs)
  from Cons.prems show ?case
    by (auto simp: cpu_readRegister_def split: if_splits prod.splits dest!: Cons.IH)
qed

lemma rspReadAllRegs_sends:
  "rspReadAllRegs H T s = Inl UNDEFINED \<or> sends_one s (rspReadAllRegs H T s)"
proof (cases "rspReadAllRegs_loop H T [0..<RISCV_NUM_REGS] 0 s")
  case (Inl e)
  then show ?thesis
    using rspReadAllRegs_loop_error [OF Inl] by (simp add: rspReadAllRegs_def)
next
  case (Inr x)
  obtain n s1 where x: "x = (n, s1)" by (cases x)
  from rspReadAllRegs_loop_outbox [OF Inr [unfolded x]]
  show ?thesis
    by (simp add: rspReadAllRegs_def Inr x sends_one_putPkt)
qed

lemma rspWriteAllRegs_loop_outbox:
  "rsp_outbox (rspWriteAllRegs_loop H T regs n s) = rsp_outbox s"
proof (induction regs arbitrary: n s)
  case Nil
  show ?case by simp
next
  case (Cons reg regs)
  show ?case
    by (simp add: Cons.IH Let_def cpu_writeRegister_snd)
qed

lemma rspWriteAllRegs_sends: "sends_one s (Inr (rspWriteAllRegs H T s))"
  by (simp add: rspWriteAllRegs_def sends_one_reply rspWriteAllRegs_loop_outbox)

lemma rspReadMem_loop_outbox:
  "rsp_outbox (rspReadMem_loop T addr offs s) = rsp_outbox s"
proof (induction offs arbitrary: s)
  case Nil
  show ?case by simp
next
  case (Cons off offs)
  show ?case
    by (simp add: Cons.IH cpu_read_def split: list.splits)
qed

lemma rspReadMem_sends: "sends_one s (Inr (rspReadMem T s))"
  by (simp add: rspReadMem_def Let_def sends_one_reply sends_one_putPkt setLen_strlen_def
        rspReadMem_loop_outbox split: option.splits)

lemma rspWriteMem_sends:
  "rspWriteMem H T s = Inl UNDEFINED \<or> sends_one s (rspWriteMem H T s)"
  by (simp add: rspWriteMem_def Let_def sends_one_reply rspWriteMem_loop_effect
        split: option.splits)

lemma rspReadReg_sends: "sends_one s (Inr (rspReadReg H T s))"
  by (simp add: rspReadReg_def cpu_readRegister_def sends_one_reply sends_one_putPkt
        setLen_strlen_def split: option.splits prod.splits)

lemma rspWriteReg_sends:
  "rspWriteReg H T s = Inl UNDEFINED \<or> sends_one s (rspWriteReg H T s)"
  by (simp add: rspWriteReg_def Let_def sends_one_reply cpu_writeRegister_snd
        split: option.splits)

lemma rspWriteMemBin_sends:
  "rspWriteMemBin H T s = Inl UNDEFINED \<or> sends_one s (rspWriteMemBin H T s)"
  by (simp add: rspWriteMemBin_def Let_def sends_one_reply cpu_write_def
        split: option.splits prod.splits)


lemma rspQuery_sends:
  assumes "\<not> strncmp_eq ''qRcmd,'' (cstr (pkt_data s)) (length ''qRcmd,'')"
  shows "sends_one s (rspQuery H T s)"
  using assms
  by (simp add: rspQuery_def Let_def sends_one_reply sends_one_sendf printf_x_no_NUL)

lemma rspSyscallReply_sends:
  assumes "rspSyscallReply H T s = Some r"
  shows "r = Inl EXIT_FAILURE \<or> sends_one s r"
proof (cases "valid (parse H (cstr (pkt_data s)))")
  case False
  with assms show ?thesis
    by (auto simp: rspSyscallReply_invalid sends_one_def packStr_putPkt_eq)
next
  case True
  define p where "p = parse H (cstr (pkt_data s))"
  define s2 where "s2 = (if retcode p \<noteq> - 1
               then s\<lparr>mSyscallContinuation := SYSCALL_NONE_PENDING,
                      cpu := snd (writeRegister T 10 (retcode p) (cpu s)),
                      tlog := tlog s @ [WriteRegister 10 (retcode p)]\<rparr>
               else s\<lparr>mSyscallContinuation := SYSCALL_NONE_PENDING\<rparr>)"
  have o: "rsp_outbox s2 = rsp_outbox s" by (simp add: s2_def)
  note v = rspSyscallReply_valid [OF p_def True [folded p_def] s2_def]
  consider (int) "hasCtrlC p"
    | (cont) "\<not> hasCtrlC p" "mSyscallContinuation s = SYSCALL_THEN_FINISH_CONTINUE"
    | (trap) "\<not> hasCtrlC p" "mSyscallContinuation s \<noteq> SYSCALL_THEN_FINISH_CONTINUE"
    by blast
  then show ?thesis
  proof cases
    case int
    with assms v have "r = Inr (rspReportException TargetSignal_INT s2)" by simp
    then show ?thesis using sends_one_report [OF o] by simp
  next
    case trap
    with assms v have "r = Inr (rspReportException TargetSignal_TRAP s2)" by simp
    then show ?thesis using sends_one_report [OF o] by simp
  next
    case cont
    with assms v have "rspContinue T s2 = Some r" by simp
    from continue_effect_sends_one [OF rspContinue_effect [OF this]]
    show ?thesis using sends_one_outbox [OF _ o] by blast
  qed
qed

lemma rspContinue_sends:
  assumes "rspContinue T s = Some r"
  shows "r = Inl EXIT_FAILURE \<or> sends_one s r"
  using continue_effect_sends_one [OF rspContinue_effect [OF assms]] .

lemma rspSyscallRequest_sends:
  assumes "rspSyscallRequest T ct s = Some r"
  shows "sends_one s r"
  using rspSyscallRequest_effect [OF assms] unfolding sends_one_def by blast

lemma rspSingleStep_sends:
  assumes "rspSingleStep T s = Some r"
  shows "sends_one s r"
proof -
  let ?s1 = "snd (haveBreak s)"
  let ?s2 = "snd (cpu_resume T STEP None ?s1)"
  let ?s3 = "snd (haveBreak ?s2)"
  have o: "rsp_outbox ?s1 = rsp_outbox s" "rsp_outbox ?s2 = rsp_outbox s"
    "rsp_outbox ?s3 = rsp_outbox s"
    "rsp_outbox (snd (cpu_resume T STOP None ?s1)) = rsp_outbox s"
    "rsp_outbox (snd (cpu_resume T STOP None ?s3)) = rsp_outbox s"
    by (simp_all add: haveBreak_fields cpu_resume_fields)
  consider (b1) "fst (haveBreak s)"
    | (sys) "\<not> fst (haveBreak s)" "fst (cpu_resume T STEP None ?s1) = SYSCALL"
    | (b2) "\<not> fst (haveBreak s)" "fst (cpu_resume T STEP None ?s1) \<noteq> SYSCALL"
        "fst (haveBreak ?s2)"
    | (trap) "\<not> fst (haveBreak s)" "fst (cpu_resume T STEP None ?s1) \<noteq> SYSCALL"
        "\<not> fst (haveBreak ?s2)"
    by blast
  then show ?thesis
  proof cases
    case b1
    with assms have "r = Inr (rspReportException TargetSignal_INT
                                (snd (cpu_resume T STOP None ?s1)))"
      by (simp add: rspSingleStep_def prod.case_eq_if)
    then show ?thesis using sends_one_report [OF o(4)] by simp
  next
    case sys
    with assms have "rspSyscallRequest T SYSCALL_THEN_FINISH_STEPPING ?s2 = Some r"
      by (simp add: rspSingleStep_def prod.case_eq_if)
    from sends_one_outbox [OF rspSyscallRequest_sends [OF this] o(2)]
    show ?thesis .
  next
    case b2
    with assms have "r = Inr (rspReportException TargetSignal_INT
                                (snd (cpu_resume T STOP None ?s3)))"
      by (simp add: rspSingleStep_def prod.case_eq_if)
    then show ?thesis using sends_one_report [OF o(5)] by simp
  next
    case trap
    with assms have "r = Inr (rspReportException TargetSignal_TRAP ?s3)"
      by (simp add: rspSingleStep_def prod.case_eq_if)
    then show ?thesis using sends_one_report [OF o(3)] by simp
  qed
qed


lemma sends_one_close:
  "sends_one s (Inr s1) \<Longrightarrow> sends_one s (Inr (rspClose s1))"
  by (simp add: sends_one_def rspClose_def)

lemma matchpoint_reply:
  "rspRemoveMatchpoint s = reply [] s" "rspInsertMatchpoint s = reply [] s"
  by (simp_all add: rspRemoveMatchpoint_def rspInsertMatchpoint_def reply_def)

lemma rspClientRequest_received:
  assumes "rsp_inbox s = p # rest"
    and "s1 = s\<lparr>rsp_inbox := rest,
                  pkt_data := p @ NUL # drop (Suc (length p)) (pkt_data s),
                  pkt_len := length p\<rparr>"
    and "c = first_byte p"
  shows "rspClientRequest H T s =
          (if c = CHR ''!'' then Some (Inr (reply ''OK'' s1))
           else if c = CHR ''?'' then Some (Inr (rspReportException TargetSignal_TRAP s1))
           else if c = CHR ''A'' then Some (Inr (reply ''E01'' s1))
           else if c = CHR ''b'' then Some (Inr s1)
           else if c = CHR ''B'' then Some (Inr s1)
           else if c = CHR ''F'' then rspSyscallReply H T s1
           else if c = CHR ''c'' \<or> c = CHR ''C'' then rspContinue T s1
           else if c = CHR ''d'' then Some (Inr s1)
           else if c = CHR ''D'' then Some (Inr (rspClose (reply ''OK'' s1)))
           else if c = CHR ''g'' then Some (rspReadAllRegs H T s1)
           else if c = CHR ''G'' then Some (Inr (rspWriteAllRegs H T s1))
           else if c = CHR ''H'' then Some (Inr (reply ''OK'' s1))
           else if c = CHR ''i'' then Some (Inr (rspReportException TargetSignal_TRAP s1))
           else if c = CHR ''I'' then Some (Inr (rspReportException TargetSignal_TRAP s1))
           else if c = CHR ''k'' then
             Some (Inr (case killBehaviour s1 of
                          EXIT_ON_KILL \<Rightarrow> s1\<lparr>mExitServer := True\<rparr>
                        | RESET_ON_KILL \<Rightarrow> s1))
           else if c = CHR ''m'' then Some (Inr (rspReadMem T s1))
           else if c = CHR ''M'' then Some (rspWriteMem H T s1)
           else if c = CHR ''p'' then Some (Inr (rspReadReg H T s1))
           else if c = CHR ''P'' then Some (rspWriteReg H T s1)
           else if c = CHR ''q'' then Some (rspQuery H T s1)
           else if c = CHR ''Q'' then Some (Inr (rspSet s1))
           else if c = CHR ''r'' then Some (Inr s1)
           else if c = CHR ''R'' then Some (Inr s1)
           else if c = CHR ''s'' \<or> c = CHR ''S'' then rspSingleStep T s1
           else if c = CHR ''t'' then Some (Inr s1)
           else if c = CHR ''T'' then Some (Inr (reply ''OK'' s1))
           else if c = CHR ''v'' then Some (Inr (rspVpkt s1))
           else if c = CHR ''X'' then Some (rspWriteMemBin H T s1)
           else if c = CHR ''z'' then Some (Inr (rspRemoveMatchpoint s1))
           else if c = CHR ''Z'' then Some (Inr (rspInsertMatchpoint s1))
           else Some (Inr s1))"
proof -
  have pk: "peek (pkt_data s1) 0 = c"
    unfolding assms(2,3) by (simp add: peek_first)
  show ?thesis
    unfolding rspClientRequest_def getPkt_Cons [OF assms(1)] assms(2) [symmetric]
    by (simp only: prod.case bool.case Let_def pk)
qed

subsection \<open>Matchpoint packets\<close>

text \<open>
  C7. Whatever follows the first byte of a \<open>Z\<close> or \<open>z\<close> packet, the server answers
  it with one packet, the empty one, makes no call on the target (no memory access) and
  leaves the target and the matchpoint table as they were. The two handlers do so from
  every state.
\<close>

theorem matchpoint_packets_answered_empty:
  "(\<forall>h \<in> {rspInsertMatchpoint s, rspRemoveMatchpoint s}.
       rsp_outbox h = rsp_outbox s @ [[]] \<and> tlog h = tlog s \<and> cpu h = cpu s
         \<and> mpHash h = mpHash s)
   \<and> (rsp_inbox s = p # rest \<and> (first_byte p = CHR ''Z'' \<or> first_byte p = CHR ''z'') \<longrightarrow>
        (\<exists>s'. rspClientRequest H T s = Some (Inr s')
           \<and> rsp_outbox s' = rsp_outbox s @ [[]]
           \<and> tlog s' = tlog s \<and> cpu s' = cpu s \<and> mpHash s' = mpHash s))"
proof -
  have h: "rsp_outbox (reply [] t) = rsp_outbox t @ [[]] \<and> tlog (reply [] t) = tlog t
      \<and> cpu (reply [] t) = cpu t \<and> mpHash (reply [] t) = mpHash t"
    for t :: "'a GdbServerImpl"
    by (simp add: reply_def packStr_putPkt_eq)
  have A: "\<forall>h \<in> {rspInsertMatchpoint s, rspRemoveMatchpoint s}.
       rsp_outbox h = rsp_outbox s @ [[]] \<and> tlog h = tlog s \<and> cpu h = cpu s
         \<and> mpHash h = mpHash s"
    using h [of s] by (simp add: matchpoint_reply)
  have B: "\<exists>s'. rspClientRequest H T s = Some (Inr s')
           \<and> rsp_outbox s' = rsp_outbox s @ [[]]
           \<and> tlog s' = tlog s \<and> cpu s' = cpu s \<and> mpHash s' = mpHash s"
    if i: "rsp_inbox s = p # rest"
      and z: "first_byte p = CHR ''Z'' \<or> first_byte p = CHR ''z''"
  proof -
    define s1 where "s1 = s\<lparr>rsp_inbox := rest,
                  pkt_data := p @ NUL # drop (Suc (length p)) (pkt_data s),
                  pkt_len := length p\<rparr>"
    have f: "rsp_outbox s1 = rsp_outbox s" "tlog s1 = tlog s" "cpu s1 = cpu s"
      "mpHash s1 = mpHash s"
      by (simp_all add: s1_def)
    from z have "rspClientRequest H T s = Some (Inr (reply [] s1))"
      by (auto simp: rspClientRequest_received [OF i s1_def refl] matchpoint_reply)
    then show ?thesis using h [of s1] f by simp
  qed
  from A B show ?thesis by blast
qed

theorem matchpoint_packets_answered_empty_witness:
  "rsp_inbox (server0 [''Z0,1000,4'']) = ''Z0,1000,4'' # []
   \<and> first_byte ''Z0,1000,4'' = CHR ''Z''
   \<and> (\<exists>s'. rspClientRequest simHelpers simTarget (server0 [''Z0,1000,4'']) = Some (Inr s')
          \<and> rsp_outbox s' = [[]] \<and> tlog s' = [] \<and> cpu s' = sim0 \<and> mpHash s' = Map.empty)"
proof -
  have i: "rsp_inbox (server0 [''Z0,1000,4'']) = ''Z0,1000,4'' # []"
    by (simp add: server0_def GdbServerImpl_new_def)
  have z: "first_byte ''Z0,1000,4'' = CHR ''Z''"
    by (simp add: first_byte_def)
  have f: "rsp_outbox (server0 [''Z0,1000,4'']) = []" "tlog (server0 [''Z0,1000,4'']) = []"
    "cpu (server0 [''Z0,1000,4'']) = sim0" "mpHash (server0 [''Z0,1000,4'']) = Map.empty"
    by (simp_all add: server0_def GdbServerImpl_new_def)
  from matchpoint_packets_answered_empty
         [of "server0 [''Z0,1000,4'']" "''Z0,1000,4''" "[]" simHelpers simTarget] i z
  have "\<exists>s'. rspClientRequest simHelpers simTarget (server0 [''Z0,1000,4'']) = Some (Inr s')
          \<and> rsp_outbox s' = [[]] \<and> tlog s' = [] \<and> cpu s' = sim0 \<and> mpHash s' = Map.empty"
    unfolding f by simp
  with i z show ?thesis by blast
qed

subsection \<open>One reply per request, or none\<close>

text \<open>
  C1, as stated, fails: the kill packet \<open>k\<close> and a packet with an unknown first byte
  (here \<open>y\<close>) are read and handled, and nothing at all is sent in answer, not even
  the empty packet.
\<close>

theorem kill_and_unknown_packets_get_no_reply:
  "map_option (map_sum id rsp_outbox)
      (rspClientRequest simHelpers simTarget (server0 [''k''])) = Some (Inr [])
   \<and> map_option (map_sum id rsp_inbox)
      (rspClientRequest simHelpers simTarget (server0 [''k''])) = Some (Inr [])
   \<and> map_option (map_sum id rsp_outbox)
      (rspClientRequest simHelpers simTarget (server0 [''y''])) = Some (Inr [])
   \<and> map_option (map_sum id rsp_inbox)
      (rspClientRequest simHelpers simTarget (server0 [''y''])) = Some (Inr [])"
proof -
  have i: "rsp_inbox (server0 [x]) = x # []" for x
    by (simp add: server0_def GdbServerImpl_new_def)
  have k: "first_byte ''k'' = CHR ''k''" and y: "first_byte ''y'' = CHR ''y''"
    by (simp_all add: first_byte_def)
  show ?thesis
    by (simp add: rspClientRequest_received [OF i refl refl] k y)
       (simp add: server0_def GdbServerImpl_new_def)
qed

text \<open>
  C1, amended. The server reads one request and, by its first byte \<open>c\<close>:
  answers with exactly one packet for \<open>! ? A D G H i I m p Q T v z Z\<close> and for a
  \<open>q\<close> packet that is not a monitor command; answers with exactly one packet for
  \<open>g M P X\<close> unless the request leaves the handler's behaviour undefined; sends
  exactly one packet (a stop-reply, a syscall request or \<open>E01\<close>) for \<open>s S\<close>
  whenever the handler returns, and for \<open>c C F\<close> whenever the handler returns without
  ending the process; and sends nothing for \<open>b B d k r R t\<close> and for every other first
  byte: these requests are ignored, not answered with an empty packet.
\<close>

theorem one_packet_per_answered_request:
  assumes "rsp_inbox s = p # rest" and "c = first_byte p"
  shows
    "(c \<in> set ''!?ADGHiImpQTvzZ'' \<longrightarrow>
        (\<exists>r. rspClientRequest H T s = Some r \<and> sends_one s r))
     \<and> (c = CHR ''q'' \<and> \<not> strncmp_eq ''qRcmd,'' (cstr p) (length ''qRcmd,'') \<longrightarrow>
        (\<exists>r. rspClientRequest H T s = Some r \<and> sends_one s r))
     \<and> (c \<in> set ''gMPX'' \<longrightarrow>
        (\<exists>r. rspClientRequest H T s = Some r \<and> (r = Inl UNDEFINED \<or> sends_one s r)))
     \<and> (c \<in> set ''sS'' \<longrightarrow>
        (\<forall>r. rspClientRequest H T s = Some r \<longrightarrow> sends_one s r))
     \<and> (c \<in> set ''cCF'' \<longrightarrow>
        (\<forall>r. rspClientRequest H T s = Some r \<longrightarrow> r = Inl EXIT_FAILURE \<or> sends_one s r))
     \<and> (c \<in> set ''bBdkrRt'' \<or> c \<notin> set ''!?AbBFcCdDgGHiIkmMpPqQrRsStTvXzZ'' \<longrightarrow>
        (\<exists>r. rspClientRequest H T s = Some r \<and> sends_none s r))"
proof -
  define s1 where "s1 = s\<lparr>rsp_inbox := rest,
                  pkt_data := p @ NUL # drop (Suc (length p)) (pkt_data s),
                  pkt_len := length p\<rparr>"
  have o: "rsp_outbox s1 = rsp_outbox s"
    by (simp add: s1_def)
  have d: "cstr (pkt_data s1) = cstr p"
    by (simp add: s1_def cstr_received)
  note rq = rspClientRequest_received [OF assms(1) s1_def assms(2)]
  note so = sends_one_outbox [OF _ o]
  have one: "sends_one s (Inr (reply str s1))"
    "sends_one s (Inr (rspReportException sig s1))"
    "sends_one s (Inr (rspClose (reply str s1)))"
    "sends_one s (Inr (rspWriteAllRegs H T s1))"
    "sends_one s (Inr (rspReadMem T s1))"
    "sends_one s (Inr (rspReadReg H T s1))"
    "sends_one s (Inr (rspSet s1))"
    "sends_one s (Inr (rspVpkt s1))"
    "sends_one s (Inr (rspRemoveMatchpoint s1))"
    "sends_one s (Inr (rspInsertMatchpoint s1))"
    for str sig
    using o
    by (simp_all add: sends_one_reply sends_one_report sends_one_close so
          rspWriteAllRegs_sends rspReadMem_sends rspReadReg_sends rspSet_def rspVpkt_def
          matchpoint_reply)
  have A: "c \<in> set ''!?ADGHiImpQTvzZ'' \<longrightarrow>
        (\<exists>r. rspClientRequest H T s = Some r \<and> sends_one s r)"
    by (auto simp: rq one)
  have B: "c = CHR ''q'' \<and> \<not> strncmp_eq ''qRcmd,'' (cstr p) (length ''qRcmd,'') \<longrightarrow>
        (\<exists>r. rspClientRequest H T s = Some r \<and> sends_one s r)"
    using so [OF rspQuery_sends [of s1 H T]] by (auto simp: rq d)
  have und: "rspReadAllRegs H T s1 = Inl UNDEFINED \<or> sends_one s (rspReadAllRegs H T s1)"
    "rspWriteMem H T s1 = Inl UNDEFINED \<or> sends_one s (rspWriteMem H T s1)"
    "rspWriteReg H T s1 = Inl UNDEFINED \<or> sends_one s (rspWriteReg H T s1)"
    "rspWriteMemBin H T s1 = Inl UNDEFINED \<or> sends_one s (rspWriteMemBin H T s1)"
    using rspReadAllRegs_sends [of H T s1] rspWriteMem_sends [of H T s1]
      rspWriteReg_sends [of H T s1] rspWriteMemBin_sends [of H T s1] so
    by blast+
  have C: "c \<in> set ''gMPX'' \<longrightarrow>
        (\<exists>r. rspClientRequest H T s = Some r \<and> (r = Inl UNDEFINED \<or> sends_one s r))"
    using und by (auto simp: rq)
  have D: "c \<in> set ''sS'' \<longrightarrow>
        (\<forall>r. rspClientRequest H T s = Some r \<longrightarrow> sends_one s r)"
    using so [OF rspSingleStep_sends [of T s1]] by (auto simp: rq)
  have E: "c \<in> set ''cCF'' \<longrightarrow>
        (\<forall>r. rspClientRequest H T s = Some r \<longrightarrow> r = Inl EXIT_FAILURE \<or> sends_one s r)"
    using rspContinue_sends [of T s1] rspSyscallReply_sends [of H T s1] so
    by (auto simp: rq)
  have none: "sends_none s (Inr s1)" "sends_none s (Inr (s1\<lparr>mExitServer := True\<rparr>))"
    using o by (simp_all add: sends_none_def)
  have F: "c \<in> set ''bBdkrRt'' \<or> c \<notin> set ''!?AbBFcCdDgGHiIkmMpPqQrRsStTvXzZ'' \<longrightarrow>
        (\<exists>r. rspClientRequest H T s = Some r \<and> sends_none s r)"
    using none by (auto simp: rq split: KillBehaviour.splits)
  from A B C D E F show ?thesis by blast
qed


theorem one_packet_per_answered_request_witness:
  "rsp_inbox (server0 [''?'']) = ''?'' # []
   \<and> first_byte ''?'' \<in> set ''!?ADGHiImpQTvzZ''
   \<and> (\<exists>r. rspClientRequest simHelpers simTarget (server0 [''?'']) = Some r
          \<and> sends_one (server0 [''?'']) r)
   \<and> map_option (map_sum id rsp_outbox)
        (rspClientRequest simHelpers simTarget (server0 [''?''])) = Some (Inr [''S05''])"
proof -
  have i: "rsp_inbox (server0 [''?'']) = ''?'' # []"
    by (simp add: server0_def GdbServerImpl_new_def)
  have c: "first_byte ''?'' \<in> set ''!?ADGHiImpQTvzZ''"
    by (simp add: first_byte_def)
  from one_packet_per_answered_request [OF i refl, of simHelpers simTarget] c
  have w: "\<exists>r. rspClientRequest simHelpers simTarget (server0 [''?'']) = Some r
          \<and> sends_one (server0 [''?'']) r"
    by blast
  have q: "first_byte ''?'' = CHR ''?''" by (simp add: first_byte_def)
  have e: "map_option (map_sum id rsp_outbox)
        (rspClientRequest simHelpers simTarget (server0 [''?''])) = Some (Inr [''S05''])"
    by (simp add: rspClientRequest_received [OF i refl refl] q rspReportException_eq
          stopReply_simps)
       (simp add: server0_def GdbServerImpl_new_def)
  from i c w e show ?thesis by blast
qed

subsection \<open>The help command\<close>

lemma putRcmd_fields:
  "rsp_outbox (putRcmd H m s) = rsp_outbox s @ [packRcmdStr H m True]"
  "tlog (putRcmd H m s) = tlog s"
  "cpu (putRcmd H m s) = cpu s"
  by (simp_all add: putRcmd_def packStr_putPkt_eq)

lemma foldl_putRcmd_fields:
  "rsp_outbox (foldl (\<lambda>st m. putRcmd H (f m) st) s ms)
     = rsp_outbox s @ map (\<lambda>m. packRcmdStr H (f m) True) ms"
  "tlog (foldl (\<lambda>st m. putRcmd H (f m) st) s ms) = tlog s"
  "cpu (foldl (\<lambda>st m. putRcmd H (f m) st) s ms) = cpu s"
  by (induction ms arbitrary: s) (simp_all add: putRcmd_fields)

lemma reply_fields:
  "rsp_outbox (reply str s) = rsp_outbox s @ [str]"
  "tlog (reply str s) = tlog s"
  "cpu (reply str s) = cpu s"
  by (simp_all add: reply_def packStr_putPkt_eq)

lemma take_help: "take n ''help'' \<in> {[], ''h'', ''he'', ''hel'', ''help''}"
  by (simp add: take_Cons')

lemma strncmp_help:
  "strncmp_eq ''help'' cmd (length cmd) \<longleftrightarrow> cmd \<in> {[], ''h'', ''he'', ''hel'', ''help''}"
proof
  assume "strncmp_eq ''help'' cmd (length cmd)"
  then have "cmd = take (length cmd) ''help''"
    by (simp add: strncmp_eq_def)
  then show "cmd \<in> {[], ''h'', ''he'', ''hel'', ''help''}"
    using take_help [of "length cmd"] by simp
next
  assume "cmd \<in> {[], ''h'', ''he'', ''hel'', ''help''}"
  then show "strncmp_eq ''help'' cmd (length cmd)"
    by (auto simp: strncmp_eq_def)
qed

text \<open>
  C10. The help branch of \<open>rspCommand\<close> is taken exactly when the decoded command is
  one of the five prefixes of \<open>help\<close>, the empty command included, since the
  comparison looks at the first \<open>strlen (cmd)\<close> characters only. The server then
  sends the help text, one O-packet per line, the target's help (or the line saying
  there is none), and \<open>OK\<close>.
\<close>

theorem help_matches_every_prefix:
  assumes "cmd = cstr (hex2Ascii H (cstr (drop (length ''qRcmd,'') (pkt_data s))))"
  shows
    "(strncmp_eq ''help'' cmd (length cmd) \<longleftrightarrow> cmd \<in> {[], ''h'', ''he'', ''hel'', ''help''})
     \<and> (cmd \<in> {[], ''h'', ''he'', ''hel'', ''help''} \<longrightarrow>
        (\<exists>s'. rspCommand H T s = Inr s'
           \<and> rsp_outbox s' =
                rsp_outbox s @ map (\<lambda>m. packRcmdStr H m True) mess
                  @ (case command T ''help'' (cpu s) of
                       (ok, out, c) \<Rightarrow>
                         if ok then
                           map (\<lambda>l. packRcmdStr H l True)
                             ((''The following target specific monitor commands are supported:''
                                 @ endl) # map (\<lambda>l. l @ endl) (getlines out))
                         else [packRcmdStr H ''There are no target specific monitor commands''
                                 True])
                  @ [''OK'']
           \<and> tlog s' = tlog s @ [Command ''help'']))"
proof -
  define s0 where "s0 = (if traceRsp H (traceFlags s)
                then s\<lparr>cout := cout s @ ''RSP trace: qRcmd,'' @ cmd @ endl\<rparr> else s)"
  define s1 where "s1 = foldl (\<lambda>st m. putRcmd H m st) s0 mess"
  have s0: "rsp_outbox s0 = rsp_outbox s" "tlog s0 = tlog s" "cpu s0 = cpu s"
    by (simp_all add: s0_def)
  have s1: "rsp_outbox s1 = rsp_outbox s @ map (\<lambda>m. packRcmdStr H m True) mess"
    "tlog s1 = tlog s" "cpu s1 = cpu s"
    unfolding s1_def using foldl_putRcmd_fields [of H "\<lambda>m. m" s0 mess] s0 by simp_all
  obtain ok out c where cm: "command T ''help'' (cpu s) = (ok, out, c)"
    by (cases "command T ''help'' (cpu s)") auto
  define s2 where "s2 = s1\<lparr>cpu := c, tlog := tlog s1 @ [Command ''help'']\<rparr>"
  have cc: "cpu_command T ''help'' s1 = ((ok, out), s2)"
    by (simp add: cpu_command_def s1(3) cm s2_def)
  have s2: "rsp_outbox s2 = rsp_outbox s1" "tlog s2 = tlog s @ [Command ''help'']"
    by (simp_all add: s2_def s1)
  have B: "\<exists>s'. rspCommand H T s = Inr s'
           \<and> rsp_outbox s' =
                rsp_outbox s @ map (\<lambda>m. packRcmdStr H m True) mess
                  @ (case command T ''help'' (cpu s) of
                       (ok, out, c) \<Rightarrow>
                         if ok then
                           map (\<lambda>l. packRcmdStr H l True)
                             ((''The following target specific monitor commands are supported:''
                                 @ endl) # map (\<lambda>l. l @ endl) (getlines out))
                         else [packRcmdStr H ''There are no target specific monitor commands''
                                 True])
                  @ [''OK'']
           \<and> tlog s' = tlog s @ [Command ''help'']"
    if h: "cmd \<in> {[], ''h'', ''he'', ''hel'', ''help''}"
  proof -
    from h have m: "strncmp_eq ''help'' cmd (length cmd)"
      by (simp only: strncmp_help)
    have r: "rspCommand H T s =
      Inr (reply ''OK''
                 (if ok then
                    foldl (\<lambda>st line. putRcmd H (line @ endl) st)
                      (putRcmd H
                         (''The following target specific monitor commands are supported:''
                            @ endl) s2)
                      (getlines out)
                  else putRcmd H ''There are no target specific monitor commands'' s2))"
      unfolding rspCommand_def Let_def assms [symmetric] s0_def [symmetric]
      using m by (simp only: if_True s1_def [symmetric] cc prod.case)
    show ?thesis
      unfolding r cm
      by (cases ok)
         (simp_all add: reply_fields putRcmd_fields
            foldl_putRcmd_fields [of H "\<lambda>l. l @ endl"] s2 s1 comp_def)
  qed
  from strncmp_help [of cmd] B show ?thesis by blast
qed


lemma decoded_h:
  "cstr (hex2Ascii simHelpers (cstr (drop (length ''qRcmd,'') (''qRcmd,68'' @ [NUL])))) = ''h''"
  by (simp add: simHelpers_def cstr_def nibble_def xval_def char_of_def bit_Suc_0_iff)

theorem help_matches_every_prefix_witness:
  "cstr (hex2Ascii simHelpers (cstr (drop (length ''qRcmd,'')
      (pkt_data ((server0 [])\<lparr>pkt_data := ''qRcmd,68'' @ [NUL], pkt_len := 8\<rparr>))))) = ''h''
   \<and> ''h'' \<in> {[], ''h'', ''he'', ''hel'', ''help''}
   \<and> (\<exists>s'. rspCommand simHelpers simTarget
               ((server0 [])\<lparr>pkt_data := ''qRcmd,68'' @ [NUL], pkt_len := 8\<rparr>) = Inr s'
          \<and> rsp_outbox s' =
               map (\<lambda>m. packRcmdStr simHelpers m True) mess
                 @ [packRcmdStr simHelpers ''There are no target specific monitor commands'' True,
                    ''OK'']
          \<and> tlog s' = [Command ''help''])"
proof -
  let ?s = "(server0 [])\<lparr>pkt_data := ''qRcmd,68'' @ [NUL], pkt_len := 8\<rparr>"
  have d: "cstr (hex2Ascii simHelpers (cstr (drop (length ''qRcmd,'') (pkt_data ?s)))) = ''h''"
    using decoded_h by simp
  have h: "''h'' \<in> {[], ''h'', ''he'', ''hel'', ''help''}" by simp
  have f: "rsp_outbox ?s = []" "tlog ?s = []"
    "command simTarget ''help'' (cpu ?s) = (False, [], sim0)"
    by (simp_all add: server0_def GdbServerImpl_new_def simTarget_def)
  from help_matches_every_prefix [OF d [symmetric], of simTarget] h
  have "\<exists>s'. rspCommand simHelpers simTarget ?s = Inr s'
          \<and> rsp_outbox s' =
               map (\<lambda>m. packRcmdStr simHelpers m True) mess
                 @ [packRcmdStr simHelpers ''There are no target specific monitor commands'' True,
                    ''OK'']
          \<and> tlog s' = [Command ''help'']"
    unfolding f by simp
  with d h show ?thesis by blast
qed

subsection \<open>A monitor command the target rejects\<close>

lemma toTarget_outbox:
  "rsp_outbox (toTarget H T fullCmd failed s) =
     rsp_outbox s @
       (case command T fullCmd (cpu s) of
          (ok, out, c) \<Rightarrow> if ok then [packRcmdStr H out True, ''OK''] else [failed])"
  by (simp add: toTarget_def cpu_command_def reply_fields putRcmd_fields split: prod.splits)

lemma rspCommand_fallback:
  assumes "cmd = cstr (hex2Ascii H (cstr (drop (length ''qRcmd,'') (pkt_data s))))"
    and "\<not> strncmp_eq ''help'' cmd (length cmd)"
    and "cmd \<notin> {''reset'', ''reset warm'', ''reset cold'', ''exit'', ''timestamp'',
                  ''cyclecount'', ''instrcount''}"
    and "sscanf_timeout_d cmd = None"
    and "\<not> strncmp_eq cmd ''echo'' 4"
    and "\<not> strncmp_eq cmd ''set '' (length ''set '')"
    and "\<not> strncmp_eq cmd ''show '' (length ''show '')"
  shows "\<exists>s'. rspCommand H T s = Inr s'
           \<and> rsp_outbox s' = rsp_outbox s @
                (case command T cmd (cpu s) of
                   (ok, out, c) \<Rightarrow> if ok then [packRcmdStr H out True, ''OK''] else [''E01''])"
proof -
  define s0 where "s0 = (if traceRsp H (traceFlags s)
                then s\<lparr>cout := cout s @ ''RSP trace: qRcmd,'' @ cmd @ endl\<rparr> else s)"
  have s0: "rsp_outbox s0 = rsp_outbox s" "cpu s0 = cpu s"
    by (simp_all add: s0_def)
  have "rspCommand H T s = Inr (toTarget H T cmd ''E01'' s0)"
    unfolding rspCommand_def Let_def assms(1) [symmetric] s0_def [symmetric]
    using assms(2-7) by simp
  then show ?thesis
    by (simp add: toTarget_outbox s0)
qed

text \<open>
  C2. The monitor command \<open>foo\<close> matches none of the generic commands and goes to the
  target, which rejects it: \<open>rspCommand\<close> answers \<open>E01\<close>. The same rejection of
  \<open>set foo\<close>, which goes through \<open>rspSetCommand\<close>, is answered \<open>E04\<close>.
\<close>

theorem rejected_monitor_command_replies_E01:
  "map_sum id (\<lambda>s'. (rsp_outbox s', tlog s'))
      (rspCommand simHelpers simTarget
         ((server0 [])\<lparr>pkt_data := ''qRcmd,666f6f'' @ [NUL], pkt_len := 12\<rparr>))
     = Inr ([''E01''], [Command ''foo''])
   \<and> map_sum id (\<lambda>s'. (rsp_outbox s', tlog s'))
      (rspCommand simHelpers simTarget
         ((server0 [])\<lparr>pkt_data := ''qRcmd,73657420666f6f'' @ [NUL], pkt_len := 20\<rparr>))
     = Inr ([''E04''], [Command ''set foo''])"
proof -
  have d1: "cstr (hex2Ascii simHelpers (cstr (drop (length ''qRcmd,'')
              (''qRcmd,666f6f'' @ [NUL])))) = ''foo''"
    by (simp add: simHelpers_def cstr_def nibble_def xval_def char_of_def bit_Suc_0_iff)
  have d2: "cstr (hex2Ascii simHelpers (cstr (drop (length ''qRcmd,'')
              (''qRcmd,73657420666f6f'' @ [NUL])))) = ''set foo''"
    by (simp add: simHelpers_def cstr_def nibble_def xval_def char_of_def bit_Suc_0_iff)
  have t: "\<not> traceRsp simHelpers (traceFlags (server0 []))"
    by (simp add: simHelpers_def server0_def GdbServerImpl_new_def flag_def)
  have n1: "sscanf_timeout_d ''foo'' = None" "sscanf_timeout_d ''set foo'' = None"
    by (simp_all add: sscanf_timeout_d_def scan_lit_def)
  have w: "split simHelpers ''foo'' '' '' = [''foo'']"
    by (simp add: simHelpers_def)
  have c: "cpu_command simTarget x (server0 []\<lparr>pkt_data := y, pkt_len := z\<rparr>)
      = ((False, []), (server0 [])\<lparr>pkt_data := y, pkt_len := z, tlog := [Command x]\<rparr>)"
    for x y z
    by (simp add: cpu_command_def simTarget_def server0_def GdbServerImpl_new_def)
  have 1: "map_sum id (\<lambda>s'. (rsp_outbox s', tlog s'))
      (rspCommand simHelpers simTarget
         ((server0 [])\<lparr>pkt_data := ''qRcmd,666f6f'' @ [NUL], pkt_len := 12\<rparr>))
     = Inr ([''E01''], [Command ''foo''])"
    unfolding rspCommand_def Let_def
    using d1 t
    by (simp add: n1 strncmp_eq_def toTarget_def c reply_fields)
       (simp add: server0_def GdbServerImpl_new_def)
  have 2: "map_sum id (\<lambda>s'. (rsp_outbox s', tlog s'))
      (rspCommand simHelpers simTarget
         ((server0 [])\<lparr>pkt_data := ''qRcmd,73657420666f6f'' @ [NUL], pkt_len := 20\<rparr>))
     = Inr ([''E04''], [Command ''set foo''])"
    unfolding rspCommand_def Let_def
    using d2 t
    by (simp add: n1 strncmp_eq_def isspace_def rspSetCommand_def w toTarget_def c reply_fields)
       (simp add: server0_def GdbServerImpl_new_def)
  from 1 2 show ?thesis by blast
qed

end
